theory Spec2Isabelle
  imports Main "HOL-Library.Word"
begin

section \<open>Exceptions and generators\<close>

text \<open>
  Every exception the modelled Python code can raise is a value of \<open>error\<close>; a function
  that can raise returns \<open>error + 'a\<close> with \<open>Inl\<close> for the exception.
  \<open>StructError\<close> is \<^verbatim>\<open>struct.error\<close>.
\<close>

datatype error =
    IndexError | TypeError | ValueError | AttributeError | AssertionError
  | NotImplementedError | ZeroDivisionError | RecursionError | StructError
  | StopIteration | RuntimeError

text \<open>
  A generator is observed through the values it yields and the way it ends: it returns
  (the consumer sees a normal end of the iteration) or it raises.
\<close>

datatype outcome = Returned | Raised error

text \<open>
  What the interpreter does with a \<^verbatim>\<open>StopIteration\<close> that escapes a generator body.
  Up to Python 3.6 (the version named in \<^verbatim>\<open>setup.py\<close>) it ends the iteration, with a
  deprecation warning; from Python 3.7 on (PEP 479, \<open>generator_stop\<close>) it is replaced by
  \<^verbatim>\<open>RuntimeError\<close>. Any other outcome of the body is passed on unchanged.
\<close>

fun generator_exit :: "bool \<Rightarrow> 'a list \<times> outcome \<Rightarrow> 'a list \<times> outcome" where
  "generator_exit generator_stop (ys, Raised StopIteration) =
     (if generator_stop then (ys, Raised RuntimeError) else (ys, Returned))"
| "generator_exit generator_stop (ys, out) = (ys, out)"

section \<open>nonzerobasedarray.py\<close>

text \<open>
  An instance of a class made by \<^verbatim>\<open>NonzeroBasedArray.create(ctype, lbound, length)\<close>:
  the class attribute \<^verbatim>\<open>_lbound_\<close> and the \<^verbatim>\<open>_length_\<close> elements of the underlying
  \<^verbatim>\<open>ctypes.Array\<close>.
\<close>

record 'a nzarray =
  arr_lbound :: int
  arr_items :: "'a list"

text \<open>
  An index object: an \<^verbatim>\<open>int\<close>, a \<^verbatim>\<open>slice(start, stop, step)\<close> whose parts may be
  \<^verbatim>\<open>None\<close>, or anything else.
\<close>

datatype index = IntIndex int | SliceIndex "int option" "int option" "int option" | OtherIndex

text \<open>\<^verbatim>\<open>__convertindex__\<close>: shift by the lower bound, refuse what becomes negative.\<close>

fun convertindex :: "int \<Rightarrow> index \<Rightarrow> error + index" where
  "convertindex lb (IntIndex index) =
     (let index = index - lb in
      if index < 0 then Inl IndexError else Inr (IntIndex index))"
| "convertindex lb (SliceIndex start stop step) =
     (case (case start of None \<Rightarrow> Inr None
            | Some s \<Rightarrow> (let s = s - lb in if s < 0 then Inl IndexError else Inr (Some s))) of
        Inl e \<Rightarrow> Inl e
      | Inr start' \<Rightarrow>
         (case (case stop of None \<Rightarrow> Inr None
                | Some s \<Rightarrow> (let s = s - lb in if s < 0 then Inl IndexError else Inr (Some s))) of
            Inl e \<Rightarrow> Inl e
          | Inr stop' \<Rightarrow> Inr (SliceIndex start' stop' step)))"
| "convertindex lb OtherIndex = Inl TypeError"

text \<open>
  The inherited \<^verbatim>\<open>ctypes.Array.__getitem__\<close>, reached through \<^verbatim>\<open>super()\<close>. An integer
  below zero counts from the end, and what is still out of range raises
  \<^verbatim>\<open>IndexError\<close>. A slice is clamped to the array the way every Python sequence does it
  (\<^verbatim>\<open>PySlice_AdjustIndices\<close>) and gives the list of the selected elements; only a step
  of zero raises.
\<close>

definition adjust_bound :: "int \<Rightarrow> int \<Rightarrow> int \<Rightarrow> int" where
  "adjust_bound n step v =
     (if v < 0 then (if v + n < 0 then (if step < 0 then - 1 else 0) else v + n)
      else if v \<ge> n then (if step < 0 then n - 1 else n)
      else v)"

definition slice_indices :: "int \<Rightarrow> int option \<Rightarrow> int option \<Rightarrow> int \<Rightarrow> int list" where
  "slice_indices n start stop step =
     (let start = (case start of None \<Rightarrow> (if step < 0 then n - 1 else 0)
                   | Some v \<Rightarrow> adjust_bound n step v);
          stop = (case stop of None \<Rightarrow> (if step < 0 then - 1 else n)
                  | Some v \<Rightarrow> adjust_bound n step v);
          slicelength =
            (if step < 0 then (if stop < start then (start - stop - 1) div (- step) + 1 else 0)
             else (if start < stop then (stop - start - 1) div step + 1 else 0))
      in map (\<lambda>k. start + int k * step) [0..<nat slicelength])"

datatype 'a item = Element 'a | Elements "'a list"

fun Array_getitem :: "'a list \<Rightarrow> index \<Rightarrow> error + 'a item" where
  "Array_getitem xs (IntIndex i) =
     (let n = int (length xs); j = (if i < 0 then i + n else i)
      in if j < 0 \<or> j \<ge> n then Inl IndexError else Inr (Element (xs ! nat j)))"
| "Array_getitem xs (SliceIndex start stop step) =
     (let step = (case step of None \<Rightarrow> 1 | Some k \<Rightarrow> k)
      in if step = 0 then Inl ValueError
         else Inr (Elements (map (\<lambda>j. xs ! nat j)
                     (slice_indices (int (length xs)) start stop step))))"
| "Array_getitem xs OtherIndex = Inl TypeError"

text \<open>\<^verbatim>\<open>NonzeroBasedArray.__getitem__\<close>.\<close>

definition nzb_getitem :: "'a nzarray \<Rightarrow> index \<Rightarrow> error + 'a item" where
  "nzb_getitem self index =
     (case convertindex (arr_lbound self) index of
        Inl e \<Rightarrow> Inl e
      | Inr index' \<Rightarrow> Array_getitem (arr_items self) index')"

text \<open>
  The body of the generator \<^verbatim>\<open>NonzeroBasedArray.__iter__\<close>, from the state in which the
  loop variable is \<open>i\<close> and \<open>acc\<close> has been yielded: \<^verbatim>\<open>self[i]\<close> is yielded while it
  can be read, and the first \<^verbatim>\<open>IndexError\<close> is answered by \<^verbatim>\<open>raise StopIteration\<close>.
  An integer index never reads a slice, and no other exception comes out of
  \<^verbatim>\<open>self[i]\<close>; both branches are kept so that the function is total on the result type.
\<close>

function nzb_iter_loop :: "'a nzarray \<Rightarrow> int \<Rightarrow> 'a list \<Rightarrow> 'a list \<times> outcome" where
  "nzb_iter_loop self i acc =
     (case nzb_getitem self (IntIndex i) of
        Inr (Element v) \<Rightarrow> nzb_iter_loop self (i + 1) (acc @ [v])
      | Inr (Elements vs) \<Rightarrow> (acc, Raised TypeError)
      | Inl IndexError \<Rightarrow> (acc, Raised StopIteration)
      | Inl e \<Rightarrow> (acc, Raised e))"
  by pat_completeness auto
termination
proof (relation "measure (\<lambda>(self, i, acc). nat (arr_lbound self + int (length (arr_items self)) - i))")
  show "wf (measure (\<lambda>(self :: 'a nzarray, i, acc :: 'a list).
              nat (arr_lbound self + int (length (arr_items self)) - i)))"
    by simp
next
  fix self :: "'a nzarray" and i :: int and acc :: "'a list" and x :: "'a item" and v :: 'a
  assume "nzb_getitem self (IntIndex i) = Inr x" and "x = Element v"
  then have "i - arr_lbound self < int (length (arr_items self))"
    by (auto simp: nzb_getitem_def Let_def split: if_splits)
  then show "((self, i + 1, acc @ [v]), (self, i, acc))
      \<in> measure (\<lambda>(self, i, acc). nat (arr_lbound self + int (length (arr_items self)) - i))"
    by simp
qed

declare nzb_iter_loop.simps [simp del]

text \<open>\<^verbatim>\<open>NonzeroBasedArray.__iter__\<close>, as a consumer such as \<^verbatim>\<open>list(a)\<close> sees it.\<close>

definition nzb_iter :: "bool \<Rightarrow> 'a nzarray \<Rightarrow> 'a list \<times> outcome" where
  "nzb_iter generator_stop self = generator_exit generator_stop (nzb_iter_loop self (arr_lbound self) [])"

section \<open>adssymbols.py: records\<close>

text \<open>
  A decoded symbol record (\<^verbatim>\<open>AdsSymbolEntry\<close>): the nine header fields, then the three
  strings.
\<close>

record AdsSymbolEntry =
  sym_entryLength :: nat
  sym_iGroup :: nat
  sym_iOffs :: nat
  sym_size :: nat
  sym_dataType :: nat
  sym_flags :: nat
  sym_nameLength :: nat
  sym_typeLength :: nat
  sym_commentLength :: nat
  sym_name :: string
  sym_type :: string
  sym_comment :: string

text \<open>
  A decoded data type record (\<^verbatim>\<open>AdsDatatypeEntry\<close>): the thirteen header fields, the
  three strings, the list \<^verbatim>\<open>array\<close> of \<open>(lBound, elements)\<close> pairs and the ordered
  dictionary \<^verbatim>\<open>subItems\<close> from member name to nested record, kept as an association
  list in insertion order. The header fields are unsigned, the lower bound is signed.
\<close>

datatype AdsDatatypeEntry = AdsDatatypeEntry
  (dt_entryLength: nat) (dt_version: nat) (dt_hashValue: nat) (dt_typeHashValue: nat)
  (dt_size: nat) (dt_offs: nat) (dt_dataType: nat) (dt_flags: nat)
  (dt_nameLength: nat) (dt_typeLength: nat) (dt_commentLength: nat)
  (dt_arrayDim: nat) (dt_subItemsCount: nat)
  (dt_name: string) (dt_type: string) (dt_comment: string)
  (dt_array: "(int \<times> nat) list")
  (dt_subItems: "(string \<times> AdsDatatypeEntry) list")

text \<open>\<^verbatim>\<open>s.startswith(p)\<close>.\<close>

definition startswith :: "string \<Rightarrow> string \<Rightarrow> bool" where
  "startswith s p = (take (length p) s = p)"

section \<open>adssymbols.py: decoding the blobs\<close>

text \<open>
  A blob is a list of bytes. \<^verbatim>\<open>struct.unpack\<close> reads in native mode on the platform of
  the library: \<^verbatim>\<open>L\<close> and \<^verbatim>\<open>l\<close> are 4 bytes, \<^verbatim>\<open>H\<close> is 2 bytes, little-endian, and
  the formats used here need no padding. It raises \<^verbatim>\<open>struct.error\<close> unless the buffer
  has exactly the size of the format.
\<close>

type_synonym byte = "8 word"

fun le_nat :: "byte list \<Rightarrow> nat" where
  "le_nat [] = 0"
| "le_nat (b # bs) = unat b + 256 * le_nat bs"

definition signed32 :: "nat \<Rightarrow> int" where
  "signed32 u = (if u \<ge> 2 ^ 31 then int u - 2 ^ 32 else int u)"

fun unpack_fields :: "nat list \<Rightarrow> byte list \<Rightarrow> nat list" where
  "unpack_fields [] data = []"
| "unpack_fields (w # ws) data = le_nat (take w data) # unpack_fields ws (drop w data)"

definition struct_unpack :: "nat list \<Rightarrow> byte list \<Rightarrow> error + nat list" where
  "struct_unpack widths data =
     (if length data \<noteq> sum_list widths then Inl StructError
      else Inr (unpack_fields widths data))"

text \<open>\<^verbatim>\<open>struct.unpack('L', data)\<close> and \<^verbatim>\<open>struct.unpack('lL', data)\<close>.\<close>

definition unpack_L :: "byte list \<Rightarrow> error + nat" where
  "unpack_L data = (case struct_unpack [4] data of Inl e \<Rightarrow> Inl e | Inr vals \<Rightarrow> Inr (vals ! 0))"

definition unpack_lL :: "byte list \<Rightarrow> error + int \<times> nat" where
  "unpack_lL data =
     (case struct_unpack [4, 4] data of
        Inl e \<Rightarrow> Inl e
      | Inr vals \<Rightarrow> Inr (signed32 (vals ! 0), vals ! 1))"

text \<open>
  \<^verbatim>\<open>Entry._parsefields\<close> for a format given by the widths of its fields: the values and
  the remainder. \<^verbatim>\<open>Entry._field\<close> and \<^verbatim>\<open>Entry._stringfield\<close> slice without checking;
  Latin-1 maps every byte to the character with its code.
\<close>

definition parsefields :: "nat list \<Rightarrow> byte list \<Rightarrow> error + nat list \<times> byte list" where
  "parsefields widths data =
     (let formatlength = sum_list widths
      in case struct_unpack widths (take formatlength data) of
           Inl e \<Rightarrow> Inl e
         | Inr vals \<Rightarrow> Inr (vals, drop formatlength data))"

definition field :: "nat \<Rightarrow> byte list \<Rightarrow> byte list \<times> byte list" where
  "field len data = (take len data, drop len data)"

definition stringfield :: "nat \<Rightarrow> byte list \<Rightarrow> string \<times> byte list" where
  "stringfield len data =
     (map (\<lambda>b. char_of (unat b)) (take len data), drop (len + 1) data)"

text \<open>\<^verbatim>\<open>AdsSymbolEntry.__init__\<close>, format \<^verbatim>\<open>'LLLLLLHHH'\<close>.\<close>

definition AdsSymbolEntry_init :: "byte list \<Rightarrow> error + AdsSymbolEntry" where
  "AdsSymbolEntry_init data =
     (case parsefields [4, 4, 4, 4, 4, 4, 2, 2, 2] data of
        Inl e \<Rightarrow> Inl e
      | Inr (vals, remainder) \<Rightarrow>
          (case stringfield (vals ! 6) remainder of (name, remainder) \<Rightarrow>
           case stringfield (vals ! 7) remainder of (ty, remainder) \<Rightarrow>
           case stringfield (vals ! 8) remainder of (comment, remainder) \<Rightarrow>
             Inr \<lparr> sym_entryLength = vals ! 0, sym_iGroup = vals ! 1, sym_iOffs = vals ! 2,
                   sym_size = vals ! 3, sym_dataType = vals ! 4, sym_flags = vals ! 5,
                   sym_nameLength = vals ! 6, sym_typeLength = vals ! 7,
                   sym_commentLength = vals ! 8,
                   sym_name = name, sym_type = ty, sym_comment = comment \<rparr>))"

text \<open>
  \<^verbatim>\<open>AdsDatatypeEntry.__init__\<close>, format \<^verbatim>\<open>'LLLLLLLLHHHHH'\<close>: first the header, the
  strings and the loop over the dimensions.
\<close>

fun parse_dims ::
  "nat \<Rightarrow> byte list \<Rightarrow> (int \<times> nat) list \<Rightarrow> error + (int \<times> nat) list \<times> byte list" where
  "parse_dims 0 remainder dims = Inr (dims, remainder)"
| "parse_dims (Suc n) remainder dims =
     (case field 8 remainder of (dim, remainder) \<Rightarrow>
      case unpack_lL dim of
        Inl e \<Rightarrow> Inl e
      | Inr d \<Rightarrow> parse_dims n remainder (dims @ [d]))"

definition parse_head ::
  "byte list \<Rightarrow> error + nat list \<times> string \<times> string \<times> string \<times> (int \<times> nat) list \<times> byte list" where
  "parse_head data =
     (case parsefields [4, 4, 4, 4, 4, 4, 4, 4, 2, 2, 2, 2, 2] data of
        Inl e \<Rightarrow> Inl e
      | Inr (vals, remainder) \<Rightarrow>
          (case stringfield (vals ! 8) remainder of (name, remainder) \<Rightarrow>
           case stringfield (vals ! 9) remainder of (ty, remainder) \<Rightarrow>
           case stringfield (vals ! 10) remainder of (comment, remainder) \<Rightarrow>
           case parse_dims (vals ! 11) remainder [] of
             Inl e \<Rightarrow> Inl e
           | Inr (dims, remainder) \<Rightarrow> Inr (vals, name, ty, comment, dims, remainder)))"

text \<open>Assignment to a key of an ordered dictionary: a known key keeps its place.\<close>

fun od_set :: "('k \<times> 'v) list \<Rightarrow> 'k \<Rightarrow> 'v \<Rightarrow> ('k \<times> 'v) list" where
  "od_set [] k v = [(k, v)]"
| "od_set ((k', v') # kvs) k v = (if k' = k then (k, v) # kvs else (k', v') # od_set kvs k v)"

function AdsDatatypeEntry_init :: "byte list \<Rightarrow> error + AdsDatatypeEntry"
  and parse_subItems ::
    "nat \<Rightarrow> byte list \<Rightarrow> (string \<times> AdsDatatypeEntry) list
       \<Rightarrow> error + (string \<times> AdsDatatypeEntry) list" where
  "AdsDatatypeEntry_init data =
     (case parse_head data of
        Inl e \<Rightarrow> Inl e
      | Inr (vals, name, ty, comment, dims, remainder) \<Rightarrow>
          (case parse_subItems (vals ! 12) remainder [] of
             Inl e \<Rightarrow> Inl e
           | Inr subItems \<Rightarrow>
               Inr (AdsDatatypeEntry (vals ! 0) (vals ! 1) (vals ! 2) (vals ! 3) (vals ! 4)
                      (vals ! 5) (vals ! 6) (vals ! 7) (vals ! 8) (vals ! 9) (vals ! 10)
                      (vals ! 11) (vals ! 12) name ty comment dims subItems)))"
| "parse_subItems 0 remainder subItems = Inr subItems"
| "parse_subItems (Suc n) remainder subItems =
     (case unpack_L (take 4 remainder) of
        Inl e \<Rightarrow> Inl e
      | Inr len \<Rightarrow>
          (case field len remainder of (subItemData, remainder) \<Rightarrow>
           case AdsDatatypeEntry_init subItemData of
             Inl e \<Rightarrow> Inl e
           | Inr subItem \<Rightarrow> parse_subItems n remainder (od_set subItems (dt_name subItem) subItem)))"
  by pat_completeness auto
termination
proof -
  have fields_shorter: "length remainder + sum_list widths = length data"
    if "parsefields widths data = Inr (vals, remainder)"
    for widths data vals remainder
    using that by (auto simp: parsefields_def struct_unpack_def Let_def split: if_splits)
  have dims_shorter: "length remainder' \<le> length remainder"
    if "parse_dims n remainder dims = Inr (dims', remainder')"
    for n remainder dims dims' remainder'
    using that
  proof (induction n arbitrary: remainder dims)
    case 0
    then show ?case by simp
  next
    case (Suc n)
    from Suc.prems obtain d where
      "parse_dims n (drop 8 remainder) (dims @ [d]) = Inr (dims', remainder')"
      by (auto simp: field_def split: sum.splits)
    from Suc.IH [OF this] show ?case by simp
  qed
  have head_shorter: "length remainder < length data"
    if "parse_head data = Inr (vals, name, ty, comment, dims, remainder)"
    for data vals name ty comment dims remainder
    using that
    by (auto simp: parse_head_def stringfield_def split: sum.splits prod.splits
             dest!: fields_shorter dims_shorter)
  show ?thesis
    by (relation "inv_image (less_than <*lex*> less_than)
           (\<lambda>x. case x of Inl data \<Rightarrow> (length data, 0)
                  | Inr (n, remainder, subItems) \<Rightarrow> (length remainder, Suc n))")
       (auto simp: field_def dest: head_shorter)
qed

text \<open>
  \<^verbatim>\<open>Entry.iter\<close>, a generator, from the state in which the cursor is \<open>p\<close> and \<open>acc\<close>
  has been yielded; \<open>cls\<close> is the constructor of the record class. The loop need not end
  for an arbitrary constructor, so the function is partial: \<open>None\<close> is a generator
  that never finishes.
\<close>

partial_function (option) Entry_iter_from ::
  "(byte list \<Rightarrow> error + 'a) \<Rightarrow> byte list \<Rightarrow> nat \<Rightarrow> 'a list \<Rightarrow> ('a list \<times> outcome) option" where
  "Entry_iter_from cls data p acc =
     (if p < length data then
        (case unpack_L (take 4 (drop p data)) of
           Inl e \<Rightarrow> Some (acc, Raised e)
         | Inr len \<Rightarrow>
             (case cls (take len (drop p data)) of
                Inl e \<Rightarrow> Some (acc, Raised e)
              | Inr entry \<Rightarrow> Entry_iter_from cls data (p + len) (acc @ [entry])))
      else Some (acc, Returned))"

declare Entry_iter_from.simps [code]

definition Entry_iter :: "(byte list \<Rightarrow> error + 'a) \<Rightarrow> byte list \<Rightarrow> ('a list \<times> outcome) option" where
  "Entry_iter cls data = Entry_iter_from cls data 0 []"

section \<open>adssymbols.py: ctypes layouts\<close>

text \<open>
  The ctypes classes that layout synthesis builds: the simple types named in
  \<^verbatim>\<open>basictypes\<close>, \<open>CArray n t\<close> for \<^verbatim>\<open>n * t\<close>, \<open>NonzeroBasedArrayType t lbound n\<close> for
  \<^verbatim>\<open>NonzeroBasedArray.create(t, lbound, n)\<close>, \<open>PLCString n\<close> for
  \<^verbatim>\<open>PLCString.create(n)\<close>, \<open>Structure name fields\<close> for the class made with
  \<^verbatim>\<open>_fields_ = fields\<close> and \<^verbatim>\<open>_pack_ = 8\<close>, and \<open>Dummy n\<close> for the subclass of
  \<^verbatim>\<open>Dummy\<close> with \<^verbatim>\<open>_length_ = n\<close>.
\<close>

datatype ctype =
    c_bool | c_byte | c_int8 | c_uint8 | c_char
  | c_int16 | c_uint16 | c_int32 | c_uint32 | c_int64 | c_uint64
  | c_float | c_double | c_void_p
  | CArray nat ctype
  | NonzeroBasedArrayType ctype int nat
  | PLCString nat
  | Structure string "(string \<times> ctype) list"
  | Dummy nat

definition basictypes :: "string \<Rightarrow> ctype option" where
  "basictypes = map_of
     [ (''BOOL'', c_bool), (''BIT'', c_bool), (''BYTE'', c_byte), (''DATE'', c_int32),
       (''DINT'', c_int32), (''DT'', c_int32), (''DWORD'', c_int32), (''INT'', c_int16),
       (''LREAL'', c_double), (''REAL'', c_float), (''SINT'', c_int8), (''STRING'', c_char),
       (''TIME'', c_int32), (''TOD'', c_int32), (''UDINT'', c_uint32), (''UINT'', c_uint16),
       (''USINT'', c_uint8), (''WORD'', c_int16), (''LINT'', c_int64), (''ULINT'', c_uint64),
       (''PVOID'', c_void_p), (''OTCID'', c_int32) ]"

text \<open>
  \<^verbatim>\<open>ctypes.sizeof\<close>, with the alignment it rests on, as a pair \<open>(size, alignment)\<close>.
  The library targets Windows (it loads \<^verbatim>\<open>AdsDll.dll\<close> and reads a 4-byte
  \<^verbatim>\<open>'L'\<close>), where every simple type is aligned to its size; \<open>psz\<close> is the width of a
  pointer, 4 or 8. A structure places each field at the next multiple of the field's
  alignment, capped by the pack value, and is padded at the end to its own alignment.
\<close>

definition round_up :: "nat \<Rightarrow> nat \<Rightarrow> nat" where
  "round_up n a = ((n + a - 1) div a) * a"

definition struct_layout :: "nat \<Rightarrow> (nat \<times> nat) list \<Rightarrow> nat \<times> nat" where
  "struct_layout pack flds =
     (case fold (\<lambda>(sz, al) (off, total_align).
                   (round_up off (min al pack) + sz, max total_align (min al pack)))
                flds (0, 1) of
        (off, total_align) \<Rightarrow> (round_up off total_align, total_align))"

fun ctype_layout :: "nat \<Rightarrow> ctype \<Rightarrow> nat \<times> nat" where
  "ctype_layout psz c_bool = (1, 1)"
| "ctype_layout psz c_byte = (1, 1)"
| "ctype_layout psz c_int8 = (1, 1)"
| "ctype_layout psz c_uint8 = (1, 1)"
| "ctype_layout psz c_char = (1, 1)"
| "ctype_layout psz c_int16 = (2, 2)"
| "ctype_layout psz c_uint16 = (2, 2)"
| "ctype_layout psz c_int32 = (4, 4)"
| "ctype_layout psz c_uint32 = (4, 4)"
| "ctype_layout psz c_int64 = (8, 8)"
| "ctype_layout psz c_uint64 = (8, 8)"
| "ctype_layout psz c_float = (4, 4)"
| "ctype_layout psz c_double = (8, 8)"
| "ctype_layout psz c_void_p = (psz, psz)"
| "ctype_layout psz (CArray n t) = (case ctype_layout psz t of (sz, al) \<Rightarrow> (n * sz, al))"
| "ctype_layout psz (NonzeroBasedArrayType t lbound n) =
     (case ctype_layout psz t of (sz, al) \<Rightarrow> (n * sz, al))"
| "ctype_layout psz (PLCString n) = (n + 1, 1)"
| "ctype_layout psz (Structure name flds) =
     struct_layout 8 (map (\<lambda>f. ctype_layout psz (snd f)) flds)"
| "ctype_layout psz (Dummy n) = (n, 1)"

definition sizeof :: "nat \<Rightarrow> ctype \<Rightarrow> nat" where
  "sizeof psz t = fst (ctype_layout psz t)"

section \<open>adssymbols.py: the catalog\<close>

text \<open>The messages passed to \<^verbatim>\<open>warnings.warn\<close>, with their arguments.\<close>

datatype warning =
    UnknownTypeUnknownSize string
  | UnknownTypeKnownSize string nat
  | UnionNotSupported
  | SizeMismatch string nat
  | UnknownDatatype string

text \<open>
  The catalog: the table \<^verbatim>\<open>dtypes\<close> of the records by name, the memo \<^verbatim>\<open>ctypes\<close>
  from type name to layout (it starts as a copy of \<open>basictypes\<close> and never holds
  \<^verbatim>\<open>None\<close>), and the warnings emitted so far, in the order of the calls.
\<close>

record AdsVariablesDefinition =
  dtypes :: "string \<Rightarrow> AdsDatatypeEntry option"
  ctypes :: "string \<Rightarrow> ctype option"
  warnings :: "warning list"

definition warn :: "warning \<Rightarrow> AdsVariablesDefinition \<Rightarrow> AdsVariablesDefinition" where
  "warn w self = self\<lparr>warnings := warnings self @ [w]\<rparr>"

text \<open>The catalog as the constructor leaves it before the first call of \<open>getCtype\<close>.\<close>

definition new_catalog :: "(string \<Rightarrow> AdsDatatypeEntry option) \<Rightarrow> AdsVariablesDefinition" where
  "new_catalog table = \<lparr> dtypes = table, ctypes = basictypes, warnings = [] \<rparr>"

section \<open>adssymbols.py: AdsVariablesDefinition.getCtype\<close>

text \<open>
  \<^verbatim>\<open>re.match(r'STRING\((\d+)\)', s)\<close> with \<^verbatim>\<open>int\<close> of the group: the string begins
  with \<^verbatim>\<open>STRING(\<close>, a non-empty run of decimal digits and \<^verbatim>\<open>)\<close>; whatever follows is
  ignored.
\<close>

definition is_digit :: "char \<Rightarrow> bool" where
  "is_digit c = (c \<in> set ''0123456789'')"

definition digit_value :: "char \<Rightarrow> nat" where
  "digit_value c = length (takeWhile (\<lambda>d. d \<noteq> c) ''0123456789'')"

definition int_of_digits :: "string \<Rightarrow> nat" where
  "int_of_digits ds = fold (\<lambda>c n. 10 * n + digit_value c) ds 0"

definition stringMatch :: "string \<Rightarrow> nat option" where
  "stringMatch s =
     (if startswith s ''STRING('' then
        (let rest = drop 7 s;
             ds = takeWhile is_digit rest;
             after = dropWhile is_digit rest
         in if ds \<noteq> [] \<and> startswith after '')'' then Some (int_of_digits ds) else None)
      else None)"

text \<open>
  The loop over the members of a structure, with the recursive call \<open>getC\<close> of
  \<open>getCtype\<close> as a parameter, the cursor \<open>off\<close> (the variable \<^verbatim>\<open>o\<close>) and the fields
  collected so far. A field is a name and what \<open>getCtype\<close> returned, which in Python may
  be \<^verbatim>\<open>None\<close>.
\<close>

fun struct_fields ::
  "(AdsVariablesDefinition \<Rightarrow> string \<Rightarrow> nat
      \<Rightarrow> (error + ctype option) \<times> AdsVariablesDefinition)
   \<Rightarrow> AdsDatatypeEntry list \<Rightarrow> nat \<Rightarrow> (string \<times> ctype option) list \<Rightarrow> AdsVariablesDefinition
   \<Rightarrow> (error + (string \<times> ctype option) list \<times> nat) \<times> AdsVariablesDefinition" where
  "struct_fields getC [] off flds self = (Inr (flds, off), self)"
| "struct_fields getC (s # rest) off flds self =
     (case (if dt_offs s > off
            then (flds @ [([], Some (CArray (dt_offs s - off) c_char))], dt_offs s)
            else (flds, off)) of
        (flds, off) \<Rightarrow>
          if dt_offs s = off then
            (case getC self (dt_type s) (dt_size s) of
               (Inl e, self') \<Rightarrow> (Inl e, self')
             | (Inr ctype, self') \<Rightarrow>
                 struct_fields getC rest (off + dt_size s) (flds @ [(dt_name s, ctype)]) self')
          else struct_fields getC rest off flds (warn UnionNotSupported self))"

text \<open>
  The \<^verbatim>\<open>if\<close>/\<^verbatim>\<open>elif\<close> chain of \<open>getCtype\<close> that builds the layout of a record found in
  the table, before the dimensions are wrapped around it. \<^verbatim>\<open>divmod\<close> by an element
  count of zero raises; a field whose type is \<^verbatim>\<open>None\<close> makes ctypes refuse the
  structure class with \<^verbatim>\<open>TypeError\<close>.
\<close>

definition synthesize ::
  "(AdsVariablesDefinition \<Rightarrow> string \<Rightarrow> nat option
      \<Rightarrow> (error + ctype option) \<times> AdsVariablesDefinition)
   \<Rightarrow> AdsVariablesDefinition \<Rightarrow> string \<Rightarrow> AdsDatatypeEntry
   \<Rightarrow> (error + ctype) \<times> AdsVariablesDefinition" where
  "synthesize getC self dtypename dtype =
     (if startswith (dt_name dtype) ''POINTER TO '' then (Inr c_void_p, self)
      else if dt_type dtype \<noteq> [] \<and> dt_subItems dtype = [] then
        (let arraysize = fold (\<lambda>(lbound, elements) arraysize. arraysize * elements)
                              (dt_array dtype) 1
         in if arraysize = 0 then (Inl ZeroDivisionError, self)
            else
              (let itemsize = dt_size dtype div arraysize;
                   remainder = dt_size dtype mod arraysize
               in if remainder \<noteq> 0 then (Inl AssertionError, self)
                  else
                    (case getC self (dt_type dtype) (Some itemsize) of
                       (Inl e, self') \<Rightarrow> (Inl e, self')
                     | (Inr None, self') \<Rightarrow> (Inl AssertionError, self')
                     | (Inr (Some ctype), self') \<Rightarrow> (Inr ctype, self'))))
      else if dt_subItems dtype \<noteq> [] \<and> dt_type dtype = [] then
        (case struct_fields (\<lambda>self name sz. getC self name (Some sz))
                (map snd (dt_subItems dtype)) 0 [] self of
           (Inl e, self') \<Rightarrow> (Inl e, self')
         | (Inr (flds, off), self') \<Rightarrow>
             (let flds = (if off < dt_size dtype
                            then flds @ [([], Some (CArray (dt_size dtype - off) c_char))]
                            else flds)
              in (case those (map snd flds) of
                    None \<Rightarrow> (Inl TypeError, self')
                  | Some ts \<Rightarrow>
                      (Inr (Structure (dt_name dtype) (zip (map fst flds) ts)), self'))))
      else
        (Inr (CArray (dt_size dtype) c_char),
         warn (UnknownTypeKnownSize dtypename (dt_size dtype)) self))"

text \<open>The loop over \<^verbatim>\<open>reversed(dtype.array)\<close> that wraps the dimensions, innermost first.\<close>

definition wrap_arrays :: "(int \<times> nat) list \<Rightarrow> ctype \<Rightarrow> ctype" where
  "wrap_arrays array ctype =
     fold (\<lambda>(lbound, elements) ctype.
             if lbound = 0 then CArray elements ctype
             else NonzeroBasedArrayType ctype lbound elements)
          (rev array) ctype"

text \<open>
  \<open>getCtype\<close>. The first argument is the number of nested calls the interpreter still
  allows: Python raises \<^verbatim>\<open>RecursionError\<close> when a chain of type references does not
  end. The argument \<open>size_hint\<close> is the parameter \<^verbatim>\<open>size\<close>. The result is the returned value (\<^verbatim>\<open>None\<close> or a layout) or the exception, and
  the catalog with its memo and warnings as the call leaves them.
\<close>

primrec getCtype ::
  "nat \<Rightarrow> nat \<Rightarrow> AdsVariablesDefinition \<Rightarrow> string \<Rightarrow> nat option
     \<Rightarrow> (error + ctype option) \<times> AdsVariablesDefinition" where
  "getCtype 0 psz self dtypename size_hint = (Inl RecursionError, self)"
| "getCtype (Suc depth) psz self dtypename size_hint =
     (case ctypes self dtypename of
        Some ctype \<Rightarrow> (Inr (Some ctype), self)
      | None \<Rightarrow>
          (case stringMatch dtypename of
             Some stringLength \<Rightarrow>
               (Inr (Some (PLCString stringLength)),
                self\<lparr>ctypes := (ctypes self)(dtypename \<mapsto> PLCString stringLength)\<rparr>)
           | None \<Rightarrow>
               (case dtypes self dtypename of
                  None \<Rightarrow>
                    (case size_hint of
                       None \<Rightarrow> (Inr None, warn (UnknownTypeUnknownSize dtypename) self)
                     | Some sz \<Rightarrow>
                         (Inr (Some (Dummy sz)), warn (UnknownTypeKnownSize dtypename sz) self))
                | Some dtype \<Rightarrow>
                    (case synthesize (getCtype depth psz) self dtypename dtype of
                       (Inl e, self') \<Rightarrow> (Inl e, self')
                     | (Inr ctype, self') \<Rightarrow>
                         (let ctype = wrap_arrays (dt_array dtype) ctype;
                              mismatch = (dt_size dtype \<noteq> sizeof psz ctype);
                              self' = (if mismatch
                                       then warn (SizeMismatch (dt_name dtype) (dt_size dtype)) self'
                                       else self');
                              ctype = (if mismatch then Dummy (dt_size dtype) else ctype)
                          in (Inr (Some ctype),
                              self'\<lparr>ctypes := (ctypes self')(dtypename \<mapsto> ctype)\<rparr>))))))"

section \<open>adssymbols.py: Variable\<close>

text \<open>
  \<^verbatim>\<open>str(i)\<close> for an integer, \<^verbatim>\<open>sep.join(xs)\<close>, and the index string
  \<^verbatim>\<open>'[%s]' % ','.join(str(i) for i in idx)\<close>.
\<close>

fun str_nat :: "nat \<Rightarrow> string" where
  "str_nat n =
     (if n < 10 then [''0123456789'' ! n]
      else str_nat (n div 10) @ [''0123456789'' ! (n mod 10)])"

declare str_nat.simps [simp del]

definition str_int :: "int \<Rightarrow> string" where
  "str_int i = (if i < 0 then CHR ''-'' # str_nat (nat (- i)) else str_nat (nat i))"

fun join :: "string \<Rightarrow> string list \<Rightarrow> string" where
  "join sep [] = []"
| "join sep [x] = x"
| "join sep (x # y # ys) = x @ sep @ join sep (y # ys)"

definition idxStr :: "int list \<Rightarrow> string" where
  "idxStr idx = ''['' @ join '','' (map str_int idx) @ '']''"

text \<open>
  A \<^verbatim>\<open>Variable\<close>: its name, the symbol it belongs to, the resolved data type record
  (\<^verbatim>\<open>None\<close> for basic and unknown types), the layout used to read and write it
  (\<^verbatim>\<open>None\<close> when none was found) and the byte offset from the start of the symbol. The
  catalog \<^verbatim>\<open>__vardef\<close> is shared and mutable; here every operation takes the catalog
  and returns it as the operation leaves it.
\<close>

record Variable =
  var_name :: string
  var_symbol :: AdsSymbolEntry
  var_datatype :: "AdsDatatypeEntry option"
  var_ctype :: "ctype option"
  var_offset :: int

text \<open>The \<^verbatim>\<open>datatype\<close> argument of the constructor: a type name or a record.\<close>

datatype typeref = ByName string | ByEntry AdsDatatypeEntry

text \<open>
  The test of \<^verbatim>\<open>Variable.__init__\<close> for an alias such as an enumeration: a record
  with a type reference, no dimensions, no sub-items and no pointer prefix.
\<close>

definition is_alias :: "AdsDatatypeEntry \<Rightarrow> bool" where
  "is_alias d \<longleftrightarrow>
     dt_type d \<noteq> [] \<and> dt_array d = [] \<and> dt_subItems d = []
     \<and> \<not> startswith (dt_name d) ''POINTER TO ''"

text \<open>
  \<^verbatim>\<open>Variable.__init__\<close>. A type name is looked up in \<^verbatim>\<open>vardef.dtypes\<close>; an alias
  found there leaves the variable without a record and continues with the referenced
  name. A name without a record is looked up in \<open>basictypes\<close>, then matched against the
  string pattern, and otherwise only warned about. A variable with a record and no layout
  yet asks \<open>getCtype\<close> for the record's name, without a size: whatever \<open>getCtype\<close>
  raises, the constructor raises. The first two arguments are those of \<open>getCtype\<close>.
\<close>

definition Variable_init ::
  "nat \<Rightarrow> nat \<Rightarrow> AdsVariablesDefinition \<Rightarrow> string \<Rightarrow> AdsSymbolEntry \<Rightarrow> typeref \<Rightarrow> int option
     \<Rightarrow> (error + Variable) \<times> AdsVariablesDefinition" where
  "Variable_init depth psz vardef name symbol datatype offset =
     (case (case datatype of
              ByEntry e \<Rightarrow> (Some e, None, vardef)
            | ByName s \<Rightarrow>
                (case (case dtypes vardef s of
                         None \<Rightarrow> (None, s)
                       | Some d \<Rightarrow> if is_alias d then (None, dt_type d) else (Some d, s)) of
                   (Some d, s) \<Rightarrow> (Some d, None, vardef)
                 | (None, s) \<Rightarrow>
                     (case basictypes s of
                        Some ctype \<Rightarrow> (None, Some ctype, vardef)
                      | None \<Rightarrow>
                          (case stringMatch s of
                             Some stringLength \<Rightarrow> (None, Some (PLCString stringLength), vardef)
                           | None \<Rightarrow> (None, None, warn (UnknownDatatype s) vardef))))) of
        (dt, ctype, vardef) \<Rightarrow>
          (case (case dt of
                   None \<Rightarrow> (Inr ctype, vardef)
                 | Some d \<Rightarrow>
                     if ctype = None then getCtype depth psz vardef (dt_name d) None
                     else (Inr ctype, vardef)) of
             (Inl e, vardef) \<Rightarrow> (Inl e, vardef)
           | (Inr ctype, vardef) \<Rightarrow>
               (Inr \<lparr> var_name = name, var_symbol = symbol, var_datatype = dt,
                      var_ctype = ctype,
                      var_offset = (case offset of None \<Rightarrow> 0 | Some off \<Rightarrow> off) \<rparr>,
                vardef)))"

text \<open>\<^verbatim>\<open>Variable.__getattr__\<close>: a member of a structured variable.\<close>

definition Variable_getattr ::
  "nat \<Rightarrow> nat \<Rightarrow> AdsVariablesDefinition \<Rightarrow> Variable \<Rightarrow> string
     \<Rightarrow> (error + Variable) \<times> AdsVariablesDefinition" where
  "Variable_getattr depth psz vardef self name =
     (case var_datatype self of
        None \<Rightarrow> (Inl AttributeError, vardef)
      | Some d \<Rightarrow>
          (case map_of (dt_subItems d) name of
             None \<Rightarrow> (Inl AttributeError, vardef)
           | Some t \<Rightarrow>
               (let offset = int (dt_offs t) + var_offset self
                in Variable_init depth psz vardef name (var_symbol self)
                     (if dt_type t \<noteq> [] then ByName (dt_type t) else ByEntry t)
                     (Some offset))))"

text \<open>
  The loop of \<^verbatim>\<open>Variable.__getitem__\<close> over \<^verbatim>\<open>zip(idx, array)\<close>, with the running
  \<^verbatim>\<open>linearIndex\<close> and \<^verbatim>\<open>nItems\<close>.
\<close>

fun index_loop :: "(int \<times> int \<times> nat) list \<Rightarrow> int \<Rightarrow> nat \<Rightarrow> error + int \<times> nat" where
  "index_loop [] linearIndex nItems = Inr (linearIndex, nItems)"
| "index_loop ((i, lower, elements) # rest) linearIndex nItems =
     (if i < lower \<or> i \<ge> lower + int elements then Inl IndexError
      else index_loop rest (linearIndex * int elements + (i - lower)) (nItems * elements))"

text \<open>
  \<^verbatim>\<open>Variable.__getitem__\<close> for an index that is not a slice: a tuple of integers, a
  single integer \<open>i\<close> being the tuple \<open>[i]\<close>. (A slice reads raw bytes through the
  transport and builds no child variable.) The remainder of a division by zero raises
  before the assertion is evaluated. The method ends in the constructor of the child.
\<close>

definition Variable_getitem ::
  "nat \<Rightarrow> nat \<Rightarrow> AdsVariablesDefinition \<Rightarrow> Variable \<Rightarrow> int list
     \<Rightarrow> (error + Variable) \<times> AdsVariablesDefinition" where
  "Variable_getitem depth psz vardef self idx =
     (case var_datatype self of
        None \<Rightarrow> (Inl IndexError, vardef)
      | Some d \<Rightarrow>
          if length (dt_array d) = 0 then (Inl IndexError, vardef)
          else if length idx \<noteq> length (dt_array d) then (Inl IndexError, vardef)
          else
            (case index_loop (zip idx (dt_array d)) 0 1 of
               Inl e \<Rightarrow> (Inl e, vardef)
             | Inr (linearIndex, nItems) \<Rightarrow>
                 if nItems = 0 then (Inl ZeroDivisionError, vardef)
                 else if dt_size d mod nItems \<noteq> 0 then (Inl AssertionError, vardef)
                 else
                   (let elementSize = dt_size d div nItems
                    in if dt_type d = [] then (Inl NotImplementedError, vardef)
                       else
                         (let offset = var_offset self + linearIndex * int elementSize
                          in Variable_init depth psz vardef (idxStr idx) (var_symbol self)
                               (ByName (dt_type d)) (Some offset)))))"

text \<open>
  \<^verbatim>\<open>Variable.__iter__\<close>, a generator. Over an array it walks
  \<^verbatim>\<open>itertools.product\<close> of the index ranges and yields \<^verbatim>\<open>(idxStr, self[idx])\<close>;
  over a structure it walks the keys of \<^verbatim>\<open>subItems\<close> and yields the members. An
  exception of \<^verbatim>\<open>self[idx]\<close> or of the member access ends the generator after what
  has been yielded so far.
\<close>

fun iter_items ::
  "nat \<Rightarrow> nat \<Rightarrow> AdsVariablesDefinition \<Rightarrow> Variable \<Rightarrow> int list list
     \<Rightarrow> ((string \<times> Variable) list \<times> outcome) \<times> AdsVariablesDefinition" where
  "iter_items depth psz vardef self [] = (([], Returned), vardef)"
| "iter_items depth psz vardef self (idx # rest) =
     (case Variable_getitem depth psz vardef self idx of
        (Inl e, vardef) \<Rightarrow> (([], Raised e), vardef)
      | (Inr v, vardef) \<Rightarrow>
          (case iter_items depth psz vardef self rest of
             ((ys, out), vardef) \<Rightarrow> (((idxStr idx, v) # ys, out), vardef)))"

fun iter_subItems ::
  "nat \<Rightarrow> nat \<Rightarrow> AdsVariablesDefinition \<Rightarrow> Variable \<Rightarrow> string list
     \<Rightarrow> ((string \<times> Variable) list \<times> outcome) \<times> AdsVariablesDefinition" where
  "iter_subItems depth psz vardef self [] = (([], Returned), vardef)"
| "iter_subItems depth psz vardef self (subItemName # rest) =
     (case Variable_getattr depth psz vardef self subItemName of
        (Inl e, vardef) \<Rightarrow> (([], Raised e), vardef)
      | (Inr v, vardef) \<Rightarrow>
          (case iter_subItems depth psz vardef self rest of
             ((ys, out), vardef) \<Rightarrow> (((subItemName, v) # ys, out), vardef)))"

definition Variable_iter ::
  "nat \<Rightarrow> nat \<Rightarrow> AdsVariablesDefinition \<Rightarrow> Variable
     \<Rightarrow> ((string \<times> Variable) list \<times> outcome) \<times> AdsVariablesDefinition" where
  "Variable_iter depth psz vardef self =
     (case var_datatype self of
        None \<Rightarrow> (([], Raised TypeError), vardef)
      | Some d \<Rightarrow>
          if dt_array d \<noteq> [] then
            iter_items depth psz vardef self
              (product_lists (map (\<lambda>(lower, elements). [lower..lower + int elements - 1])
                                  (dt_array d)))
          else if dt_subItems d \<noteq> [] then
            iter_subItems depth psz vardef self (map fst (dt_subItems d))
          else (([], Returned), vardef))"

text \<open>\<^verbatim>\<open>Variable.__len__\<close>: the product of the element counts of an array.\<close>

definition Variable_len :: "Variable \<Rightarrow> error + nat" where
  "Variable_len self =
     (case var_datatype self of
        None \<Rightarrow> Inl TypeError
      | Some d \<Rightarrow>
          if dt_array d = [] then Inl TypeError
          else Inr (fold (\<lambda>(lower, elements) n. n * elements) (dt_array d) 1))"

section \<open>The structure layout in the words of the specification\<close>

text \<open>
  What the specification says the member loop of a structure does, as functions of the
  members in declared order and the byte cursor. A member whose offset exceeds the cursor
  gets a padding slot of (offset - cursor) bytes before its own slot, and the cursor
  moves behind the member; a member at the cursor gets its slot; a member below the
  cursor is skipped and leaves the cursor where it is.
\<close>

datatype slot = Padding nat | Member AdsDatatypeEntry

fun spec_slots :: "AdsDatatypeEntry list \<Rightarrow> nat \<Rightarrow> slot list" where
  "spec_slots [] cursor = []"
| "spec_slots (s # rest) cursor =
     (if dt_offs s > cursor
      then Padding (dt_offs s - cursor) # Member s # spec_slots rest (dt_offs s + dt_size s)
      else if dt_offs s = cursor then Member s # spec_slots rest (cursor + dt_size s)
      else spec_slots rest cursor)"

fun spec_cursor :: "AdsDatatypeEntry list \<Rightarrow> nat \<Rightarrow> nat" where
  "spec_cursor [] cursor = cursor"
| "spec_cursor (s # rest) cursor =
     (if dt_offs s < cursor then spec_cursor rest cursor
      else spec_cursor rest (dt_offs s + dt_size s))"

fun spec_kept :: "AdsDatatypeEntry list \<Rightarrow> nat \<Rightarrow> AdsDatatypeEntry list" where
  "spec_kept [] cursor = []"
| "spec_kept (s # rest) cursor =
     (if dt_offs s < cursor then spec_kept rest cursor
      else s # spec_kept rest (dt_offs s + dt_size s))"

fun spec_skipped :: "AdsDatatypeEntry list \<Rightarrow> nat \<Rightarrow> AdsDatatypeEntry list" where
  "spec_skipped [] cursor = []"
| "spec_skipped (s # rest) cursor =
     (if dt_offs s < cursor then s # spec_skipped rest cursor
      else spec_skipped rest (dt_offs s + dt_size s))"

text \<open>
  The slots of a whole structure record: those of its members from cursor 0, and one
  final padding slot when the cursor ends below the declared size.
\<close>

definition spec_layout :: "AdsDatatypeEntry \<Rightarrow> slot list" where
  "spec_layout dtype =
     (let members = map snd (dt_subItems dtype);
          cursor = spec_cursor members 0
      in spec_slots members 0
         @ (if cursor < dt_size dtype then [Padding (dt_size dtype - cursor)] else []))"

text \<open>
  The fields that fill a list of slots: a padding slot of \<open>n\<close> bytes is an anonymous
  field of \<open>n\<close> characters, a member slot is a field with the member's name and the next
  of the given layouts. \<open>mk\<close> is \<open>Some\<close> while the loop runs, where a layout may be
  \<^verbatim>\<open>None\<close>, and the identity in the finished structure class.
\<close>

fun spec_fields :: "(ctype \<Rightarrow> 'c) \<Rightarrow> slot list \<Rightarrow> 'c list \<Rightarrow> (string \<times> 'c) list" where
  "spec_fields mk [] cs = []"
| "spec_fields mk (Padding n # slots) cs = ([], mk (CArray n c_char)) # spec_fields mk slots cs"
| "spec_fields mk (Member s # slots) (c # cs) = (dt_name s, c) # spec_fields mk slots cs"
| "spec_fields mk (Member s # slots) [] = []"

section \<open>Concrete records for the examples\<close>

text \<open>
  A symbol record and a data type record with the fields that navigation and layout
  synthesis read (name, type reference, size, offset, dimensions, sub-items) given, the
  length fields of the header as the strings and lists have them, and the remaining
  header fields zero.
\<close>

abbreviation symbol_entry :: "string \<Rightarrow> string \<Rightarrow> nat \<Rightarrow> AdsSymbolEntry" where
  "symbol_entry name ty sz \<equiv>
     \<lparr> sym_entryLength = 0, sym_iGroup = 0, sym_iOffs = 0, sym_size = sz, sym_dataType = 0,
       sym_flags = 0, sym_nameLength = length name, sym_typeLength = length ty,
       sym_commentLength = 0, sym_name = name, sym_type = ty, sym_comment = [] \<rparr>"

abbreviation type_record ::
  "string \<Rightarrow> string \<Rightarrow> nat \<Rightarrow> nat \<Rightarrow> (int \<times> nat) list \<Rightarrow> (string \<times> AdsDatatypeEntry) list
     \<Rightarrow> AdsDatatypeEntry" where
  "type_record name ty sz offs dims subs \<equiv>
     AdsDatatypeEntry 0 1 0 0 sz offs 0 0 (length name) (length ty) 0 (length dims) (length subs)
       name ty [] dims subs"

text \<open>
  The structure of Scenario 2: two four-byte members of type \<^verbatim>\<open>DINT\<close> at the offsets 0
  and 8, declared size 12, and the catalog whose table holds just this record.
\<close>

abbreviation member_a :: AdsDatatypeEntry where
  "member_a \<equiv> type_record ''a'' ''DINT'' 4 0 [] []"

abbreviation member_b :: AdsDatatypeEntry where
  "member_b \<equiv> type_record ''b'' ''DINT'' 4 8 [] []"

abbreviation struct_S :: AdsDatatypeEntry where
  "struct_S \<equiv> type_record ''S'' [] 12 0 [] [(''a'', member_a), (''b'', member_b)]"

abbreviation catalog_S :: AdsVariablesDefinition where
  "catalog_S \<equiv> new_catalog [''S'' \<mapsto> struct_S]"

text \<open>
  A structure with a member in between that overlaps the first: \<^verbatim>\<open>x\<close> at offset 2.
\<close>

abbreviation member_x :: AdsDatatypeEntry where
  "member_x \<equiv> type_record ''x'' ''DINT'' 4 2 [] []"

abbreviation struct_U :: AdsDatatypeEntry where
  "struct_U \<equiv> type_record ''U'' [] 12 0 []
                [(''a'', member_a), (''x'', member_x), (''b'', member_b)]"

abbreviation catalog_U :: AdsVariablesDefinition where
  "catalog_U \<equiv> new_catalog [''U'' \<mapsto> struct_U]"

section \<open>Properties of nonzerobasedarray.py\<close>

lemma nzb_iter_loop_from:
  "k \<le> length (arr_items self) \<Longrightarrow>
   nzb_iter_loop self (arr_lbound self + int k) acc
     = (acc @ drop k (arr_items self), Raised StopIteration)"
proof (induction "length (arr_items self) - k" arbitrary: k acc)
  case 0
  then have k: "k = length (arr_items self)" by simp
  have "nzb_getitem self (IntIndex (arr_lbound self + int k)) = Inl IndexError"
    by (simp add: nzb_getitem_def k)
  then show ?case by (subst nzb_iter_loop.simps) (simp add: k)
next
  case (Suc m)
  then have lt: "k < length (arr_items self)" by simp
  have g: "nzb_getitem self (IntIndex (arr_lbound self + int k)) = Inr (Element (arr_items self ! k))"
    using lt by (simp add: nzb_getitem_def)
  have step: "nzb_iter_loop self (arr_lbound self + int k) acc
              = nzb_iter_loop self (arr_lbound self + int (Suc k)) (acc @ [arr_items self ! k])"
    using g by (subst nzb_iter_loop.simps) (simp add: ac_simps)
  have ih: "nzb_iter_loop self (arr_lbound self + int (Suc k)) (acc @ [arr_items self ! k])
              = ((acc @ [arr_items self ! k]) @ drop (Suc k) (arr_items self), Raised StopIteration)"
    using Suc.hyps(1)[of "Suc k" "acc @ [arr_items self ! k]"] Suc.hyps(2) lt by simp
  show ?case
    using step ih lt by (simp add: Cons_nth_drop_Suc)
qed

lemma nzb_iter_loop_all:
  "nzb_iter_loop self (arr_lbound self) [] = (arr_items self, Raised StopIteration)"
  using nzb_iter_loop_from [of 0 self "[]"] by simp

text \<open>
  The body of \<^verbatim>\<open>__iter__\<close> yields the elements at the logical indices
  \<open>b, b + 1, ..., b + n - 1\<close> in this order and then raises \<^verbatim>\<open>StopIteration\<close>. On
  Python 3.6 and earlier the interpreter turns this into a normal end of the iteration.
\<close>

lemma nzb_iter_before_generator_stop: "nzb_iter False self = (arr_items self, Returned)"
  by (simp add: nzb_iter_def nzb_iter_loop_all)

text \<open>
  C8, as amended: for every NonzeroBasedArray with lower bound \<open>b\<close> and length \<open>n\<close>, a scalar
  or slice index is converted by subtracting \<open>b\<close>, and an index or slice bound whose shifted
  value is negative raises \<^verbatim>\<open>IndexError\<close>, whatever counting from the end would have
  given; indexing at \<open>b - 1\<close> and at \<open>b + n\<close> raises \<^verbatim>\<open>IndexError\<close>; slicing
  \<open>[b:b]\<close> yields an empty result; and when \<open>n \<ge> 1\<close>, indexing at \<open>b\<close> and at
  \<open>b + n - 1\<close> succeeds, returning the elements at the zero-based positions \<open>0\<close> and
  \<open>n - 1\<close>.
\<close>

theorem nzb_index_shifted:
  "(convertindex (arr_lbound self) (IntIndex i) =
      (if i - arr_lbound self < 0 then Inl IndexError else Inr (IntIndex (i - arr_lbound self))))
   \<and> (convertindex (arr_lbound self) (SliceIndex start stop step) =
        (if (\<exists>s. start = Some s \<and> s - arr_lbound self < 0)
            \<or> (\<exists>s. stop = Some s \<and> s - arr_lbound self < 0)
         then Inl IndexError
         else Inr (SliceIndex (map_option (\<lambda>s. s - arr_lbound self) start)
                              (map_option (\<lambda>s. s - arr_lbound self) stop) step)))
   \<and> (0 < length (arr_items self) \<longrightarrow>
          nzb_getitem self (IntIndex (arr_lbound self)) = Inr (Element (arr_items self ! 0))
        \<and> nzb_getitem self (IntIndex (arr_lbound self + int (length (arr_items self)) - 1))
            = Inr (Element (arr_items self ! (length (arr_items self) - 1))))
   \<and> nzb_getitem self (IntIndex (arr_lbound self - 1)) = Inl IndexError
   \<and> nzb_getitem self (IntIndex (arr_lbound self + int (length (arr_items self)))) = Inl IndexError
   \<and> nzb_getitem self (SliceIndex (Some (arr_lbound self)) (Some (arr_lbound self)) None)
       = Inr (Elements [])
   \<and> (i < arr_lbound self \<longrightarrow> nzb_getitem self (IntIndex i) = Inl IndexError)
   \<and> (s < arr_lbound self \<longrightarrow>
          nzb_getitem self (SliceIndex (Some s) stop step) = Inl IndexError
        \<and> nzb_getitem self (SliceIndex start (Some s) step) = Inl IndexError)"
proof (intro conjI impI)
  show "convertindex (arr_lbound self) (IntIndex i) =
      (if i - arr_lbound self < 0 then Inl IndexError else Inr (IntIndex (i - arr_lbound self)))"
    by (simp add: Let_def)
  show "convertindex (arr_lbound self) (SliceIndex start stop step) =
        (if (\<exists>s. start = Some s \<and> s - arr_lbound self < 0)
            \<or> (\<exists>s. stop = Some s \<and> s - arr_lbound self < 0)
         then Inl IndexError
         else Inr (SliceIndex (map_option (\<lambda>s. s - arr_lbound self) start)
                              (map_option (\<lambda>s. s - arr_lbound self) stop) step))"
    by (cases start; cases stop; simp add: Let_def)
  show "nzb_getitem self (IntIndex (arr_lbound self - 1)) = Inl IndexError"
    by (simp add: nzb_getitem_def)
  show "nzb_getitem self (IntIndex (arr_lbound self + int (length (arr_items self)))) = Inl IndexError"
    by (simp add: nzb_getitem_def)
  show "nzb_getitem self (SliceIndex (Some (arr_lbound self)) (Some (arr_lbound self)) None)
       = Inr (Elements [])"
    by (simp add: nzb_getitem_def slice_indices_def adjust_bound_def)
next
  assume "i < arr_lbound self"
  then show "nzb_getitem self (IntIndex i) = Inl IndexError"
    by (simp add: nzb_getitem_def)
next
  assume "s < arr_lbound self"
  then show "nzb_getitem self (SliceIndex (Some s) stop step) = Inl IndexError"
    by (simp add: nzb_getitem_def)
next
  assume "s < arr_lbound self"
  then show "nzb_getitem self (SliceIndex start (Some s) step) = Inl IndexError"
    by (cases start; simp add: nzb_getitem_def Let_def)
next
  assume n: "0 < length (arr_items self)"
  then show "nzb_getitem self (IntIndex (arr_lbound self)) = Inr (Element (arr_items self ! 0))"
    by (simp add: nzb_getitem_def)
  have "nat (int (length (arr_items self)) - 1) = length (arr_items self) - 1" by simp
  then show "nzb_getitem self (IntIndex (arr_lbound self + int (length (arr_items self)) - 1))
            = Inr (Element (arr_items self ! (length (arr_items self) - 1)))"
    using n by (simp add: nzb_getitem_def)
qed

theorem nzb_index_shifted_witness:
  "0 < length (arr_items \<lparr>arr_lbound = - 2, arr_items = [5, 6, 7, 8 :: int]\<rparr>)
   \<and> (- 3 :: int) < arr_lbound \<lparr>arr_lbound = - 2, arr_items = [5, 6, 7, 8 :: int]\<rparr>
   \<and> nzb_getitem \<lparr>arr_lbound = - 2, arr_items = [5, 6, 7, 8 :: int]\<rparr> (IntIndex (- 2))
       = Inr (Element 5)
   \<and> nzb_getitem \<lparr>arr_lbound = - 2, arr_items = [5, 6, 7, 8 :: int]\<rparr> (IntIndex 1)
       = Inr (Element 8)
   \<and> nzb_getitem \<lparr>arr_lbound = - 2, arr_items = [5, 6, 7, 8 :: int]\<rparr> (IntIndex (- 3))
       = Inl IndexError
   \<and> nzb_getitem \<lparr>arr_lbound = - 2, arr_items = [5, 6, 7, 8 :: int]\<rparr>
        (SliceIndex (Some (- 3)) (Some 1) None) = Inl IndexError"
  using nzb_index_shifted [of "\<lparr>arr_lbound = - 2, arr_items = [5, 6, 7, 8 :: int]\<rparr>"
          "- 3" None "Some 1" None "- 3"]
  by simp

text \<open>
  C8 as stated fails for an array of length zero, which \<^verbatim>\<open>create\<close> accepts: there is
  no element at the lower bound, and indexing at \<open>b\<close> raises \<^verbatim>\<open>IndexError\<close>.
\<close>

theorem nzb_index_empty_counterexample:
  "nzb_getitem \<lparr>arr_lbound = 5, arr_items = ([] :: int list)\<rparr> (IntIndex 5) = Inl IndexError"
  by (simp add: nzb_getitem_def)

text \<open>
  C9: iterating a NonzeroBasedArray with lower bound \<open>b\<close> and length \<open>n\<close> yields exactly the
  \<open>n\<close> elements at the logical indices \<open>b, ..., b + n - 1\<close> in increasing order and then
  terminates normally. The generator yields these elements, but it ends by
  \<^verbatim>\<open>raise StopIteration\<close>: under PEP 479 (Python 3.7 and later) the consumer receives
  \<^verbatim>\<open>RuntimeError\<close> after the last element, for every array.
\<close>

theorem nzb_iter_generator_stop: "nzb_iter True self = (arr_items self, Raised RuntimeError)"
  by (simp add: nzb_iter_def nzb_iter_loop_all)


section \<open>Properties of the record stream\<close>

text \<open>
  With a constructor that refuses the empty slice, as both record classes do, every
  iteration ends: each round either raises or moves the cursor forward.
\<close>

lemma Entry_iter_from_total:
  assumes empty: "cls [] = Inl e"
  shows "\<exists>r. Entry_iter_from cls data p acc = Some r"
proof (induction "length data - p" arbitrary: p acc rule: less_induct)
  case less
  show ?case
  proof (cases "p < length data")
    case False
    then show ?thesis by (subst Entry_iter_from.simps) simp
  next
    case inside: True
    show ?thesis
    proof (cases "unpack_L (take 4 (drop p data))")
      case (Inl e')
      then show ?thesis using inside by (subst Entry_iter_from.simps) simp
    next
      case (Inr len)
      show ?thesis
      proof (cases "cls (take len (drop p data))")
        case (Inl e')
        then show ?thesis using inside Inr by (subst Entry_iter_from.simps) simp
      next
        case entry: (Inr entry)
        have "len \<noteq> 0" using entry empty by (cases "len = 0") auto
        then have "length data - (p + len) < length data - p" using inside by simp
        from less [OF this, of "acc @ [entry]"]
        obtain r where "Entry_iter_from cls data (p + len) (acc @ [entry]) = Some r" ..
        then show ?thesis using inside Inr entry by (subst Entry_iter_from.simps) simp
      qed
    qed
  qed
qed

lemma AdsSymbolEntry_init_short:
  "length data < 30 \<Longrightarrow> AdsSymbolEntry_init data = Inl StructError"
  by (simp add: AdsSymbolEntry_init_def parsefields_def struct_unpack_def)

lemma AdsDatatypeEntry_init_short:
  "length data < 42 \<Longrightarrow> AdsDatatypeEntry_init data = Inl StructError"
  by (simp add: parse_head_def parsefields_def struct_unpack_def)

text \<open>
  C2, as amended: when the iteration reaches a record that declares a total length of
  zero, the constructor is handed an empty slice; both record classes refuse it with
  \<^verbatim>\<open>struct.error\<close> (as they refuse every slice shorter than their fixed header), so
  the iteration fails there and, for these classes, always ends. A record whose declared
  length extends to or past the end of the blob is decoded from the bytes that remain:
  if the constructor accepts them the truncated record is yielded and the iteration ends
  normally, and the iteration fails only if the constructor raises.
\<close>

theorem Entry_iter_malformed:
  "(p < length data \<and> unpack_L (take 4 (drop p data)) = Inr 0 \<and> cls [] = Inl e \<longrightarrow>
      Entry_iter_from cls data p acc = Some (acc, Raised e))
   \<and> (length short < 30 \<longrightarrow> AdsSymbolEntry_init short = Inl StructError)
   \<and> (length short < 42 \<longrightarrow> AdsDatatypeEntry_init short = Inl StructError)
   \<and> (cls [] = Inl e \<longrightarrow> (\<exists>r. Entry_iter_from cls data p acc = Some r))
   \<and> (p < length data \<and> unpack_L (take 4 (drop p data)) = Inr len
        \<and> length data \<le> p + len \<longrightarrow>
      Entry_iter_from cls data p acc =
        (case cls (drop p data) of
           Inl e' \<Rightarrow> Some (acc, Raised e')
         | Inr entry \<Rightarrow> Some (acc @ [entry], Returned)))"
proof (intro conjI impI)
  assume "p < length data \<and> unpack_L (take 4 (drop p data)) = Inr 0 \<and> cls [] = Inl e"
  then show "Entry_iter_from cls data p acc = Some (acc, Raised e)"
    by (subst Entry_iter_from.simps) simp
next
  assume "length short < 30"
  then show "AdsSymbolEntry_init short = Inl StructError" by (rule AdsSymbolEntry_init_short)
next
  assume "length short < 42"
  then show "AdsDatatypeEntry_init short = Inl StructError" by (rule AdsDatatypeEntry_init_short)
next
  assume "cls [] = Inl e"
  then show "\<exists>r. Entry_iter_from cls data p acc = Some r" by (rule Entry_iter_from_total)
next
  assume a: "p < length data \<and> unpack_L (take 4 (drop p data)) = Inr len
        \<and> length data \<le> p + len"
  then have "length data - p \<le> len" by linarith
  then have whole: "take len (drop p data) = drop p data" by simp
  have stop: "Entry_iter_from cls data (p + len) acc' = Some (acc', Returned)" for acc'
    using a by (subst Entry_iter_from.simps) simp
  show "Entry_iter_from cls data p acc =
        (case cls (drop p data) of
           Inl e' \<Rightarrow> Some (acc, Raised e')
         | Inr entry \<Rightarrow> Some (acc @ [entry], Returned))"
    using a whole stop by (subst Entry_iter_from.simps) (simp split: sum.splits)
qed

theorem Entry_iter_malformed_witness:
  "(0 :: nat) < length [0, 0, 0, 0 :: byte]
   \<and> unpack_L (take 4 (drop 0 [0, 0, 0, 0 :: byte])) = Inr 0
   \<and> AdsSymbolEntry_init [] = Inl StructError
   \<and> AdsDatatypeEntry_init [] = Inl StructError
   \<and> Entry_iter_from AdsSymbolEntry_init [0, 0, 0, 0] 0 [] = Some ([], Raised StructError)
   \<and> Entry_iter_from AdsDatatypeEntry_init [0, 0, 0, 0] 0 [] = Some ([], Raised StructError)
   \<and> unpack_L (take 4 (drop 0 [9, 0, 0, 0, 7 :: byte])) = Inr 9
   \<and> length [9, 0, 0, 0, 7 :: byte] \<le> 0 + 9
   \<and> Entry_iter_from AdsSymbolEntry_init [9, 0, 0, 0, 7] 0 [] = Some ([], Raised StructError)"
proof -
  have len0: "(0 :: nat) < length [0, 0, 0, 0 :: byte]" by simp
  have zero: "unpack_L (take 4 (drop 0 [0, 0, 0, 0 :: byte])) = Inr 0" by code_simp
  have sym: "AdsSymbolEntry_init [] = Inl StructError" by code_simp
  have dt: "AdsDatatypeEntry_init [] = Inl StructError" by code_simp
  have nine: "unpack_L (take 4 (drop 0 [9, 0, 0, 0, 7 :: byte])) = Inr 9" by code_simp
  have short: "AdsSymbolEntry_init (drop 0 [9, 0, 0, 0, 7 :: byte]) = Inl StructError" by code_simp
  have a: "Entry_iter_from AdsSymbolEntry_init [0, 0, 0, 0] 0 [] = Some ([], Raised StructError)"
    using Entry_iter_malformed [where p = 0 and data = "[0, 0, 0, 0]"
            and cls = AdsSymbolEntry_init and e = StructError and acc = "[]"] len0 zero sym
    by simp
  have b: "Entry_iter_from AdsDatatypeEntry_init [0, 0, 0, 0] 0 [] = Some ([], Raised StructError)"
    using Entry_iter_malformed [where p = 0 and data = "[0, 0, 0, 0]"
            and cls = AdsDatatypeEntry_init and e = StructError and acc = "[]"] len0 zero dt
    by simp
  have c: "Entry_iter_from AdsSymbolEntry_init [9, 0, 0, 0, 7] 0 [] = Some ([], Raised StructError)"
    using Entry_iter_malformed [where p = 0 and data = "[9, 0, 0, 0, 7]"
            and cls = AdsSymbolEntry_init and len = 9 and acc = "[]"] nine short
    by simp
  show ?thesis using len0 zero sym dt a b nine c by simp
qed

text \<open>
  C2 as stated fails for a record that declares more bytes than the blob holds. This
  symbol record declares 64 bytes and a name of 4 characters in a blob of 32 bytes: the
  iteration yields the record with the two characters that are there, and ends normally.
\<close>

theorem Entry_iter_malformed_counterexample:
  "Entry_iter AdsSymbolEntry_init
     [64, 0, 0, 0,  1, 0, 0, 0,  2, 0, 0, 0,  2, 0, 0, 0,  2, 0, 0, 0,  0, 0, 0, 0,
      4, 0,  3, 0,  0, 0,  0x61, 0x62]
   = Some ([\<lparr> sym_entryLength = 64, sym_iGroup = 1, sym_iOffs = 2, sym_size = 2,
              sym_dataType = 2, sym_flags = 0, sym_nameLength = 4, sym_typeLength = 3,
              sym_commentLength = 0, sym_name = ''ab'', sym_type = [], sym_comment = [] \<rparr>],
           Returned)"
  by code_simp

section \<open>Properties of layout synthesis\<close>

lemma arraysize_prod:
  "fold (\<lambda>(lbound, elements) arraysize. arraysize * elements) array n
     = n * prod_list (map snd array)"
  by (induction array arbitrary: n) (auto simp: algebra_simps)

lemma sizeof_Dummy: "sizeof psz (Dummy n) = n"
  by (simp add: sizeof_def)

text \<open>
  C3, as amended: for every type name present in the data type table that is not already
  in the memo (as the built-in simple types are from the start) and does not match the
  fixed-length string pattern, whenever \<open>getCtype\<close> returns, it returns a layout whose
  byte size equals the record's declared size, and stores it in the memo: the returned
  layout is the synthesized one, wrapped in the record's dimensions, when its size agrees
  with the declared size, and otherwise a \<open>Dummy\<close> of exactly the declared size.
\<close>

theorem getCtype_declared_size:
  assumes memo: "ctypes self dtypename = None"
    and nostr: "stringMatch dtypename = None"
    and tab: "dtypes self dtypename = Some dtype"
    and res: "getCtype depth psz self dtypename size_hint = (Inr r, self')"
  shows "\<exists>ctype. r = Some ctype \<and> sizeof psz ctype = dt_size dtype
           \<and> ctypes self' dtypename = Some ctype
           \<and> (\<exists>c self0. synthesize (getCtype (depth - 1) psz) self dtypename dtype = (Inr c, self0)
                 \<and> ctype = (if sizeof psz (wrap_arrays (dt_array dtype) c) = dt_size dtype
                            then wrap_arrays (dt_array dtype) c
                            else Dummy (dt_size dtype)))"
proof (cases depth)
  case 0
  then show ?thesis using res by simp
next
  case (Suc d)
  obtain x self0 where syn: "synthesize (getCtype d psz) self dtypename dtype = (x, self0)"
    by (cases "synthesize (getCtype d psz) self dtypename dtype")
  show ?thesis
  proof (cases x)
    case (Inl e)
    then show ?thesis using res memo nostr tab syn Suc by simp
  next
    case (Inr c)
    then show ?thesis
      using res memo nostr tab syn Suc
      by (auto simp: Let_def sizeof_Dummy split: if_splits)
  qed
qed

text \<open>
  A structure with a one-byte member at offset 0 and a four-byte \<^verbatim>\<open>DINT\<close> at offset
  1, declared size 5: ctypes aligns the second field to 4, the class has 8 bytes, and
  the catalog stores a \<open>Dummy\<close> of 5 bytes.
\<close>

theorem getCtype_declared_size_witness:
  "ctypes (new_catalog [''P'' \<mapsto> type_record ''P'' [] 5 0 []
              [(''a'', type_record ''a'' ''BYTE'' 1 0 [] []),
               (''b'', type_record ''b'' ''DINT'' 4 1 [] [])]]) ''P'' = None
   \<and> stringMatch ''P'' = None
   \<and> fst (getCtype 5 8 (new_catalog [''P'' \<mapsto> type_record ''P'' [] 5 0 []
              [(''a'', type_record ''a'' ''BYTE'' 1 0 [] []),
               (''b'', type_record ''b'' ''DINT'' 4 1 [] [])]]) ''P'' None)
       = Inr (Some (Dummy 5))
   \<and> sizeof 8 (Structure ''P'' [(''a'', c_byte), (''b'', c_int32)]) = 8
   \<and> sizeof 8 (Dummy 5) = 5
   \<and> ctypes (snd (getCtype 5 8 (new_catalog [''P'' \<mapsto> type_record ''P'' [] 5 0 []
              [(''a'', type_record ''a'' ''BYTE'' 1 0 [] []),
               (''b'', type_record ''b'' ''DINT'' 4 1 [] [])]]) ''P'' None)) ''P''
       = Some (Dummy 5)"
proof -
  let ?rec = "type_record ''P'' [] 5 0 []
              [(''a'', type_record ''a'' ''BYTE'' 1 0 [] []),
               (''b'', type_record ''b'' ''DINT'' 4 1 [] [])]"
  let ?cat = "new_catalog [''P'' \<mapsto> ?rec]"
  have memo: "ctypes ?cat ''P'' = None" by code_simp
  have nostr: "stringMatch ''P'' = None" by code_simp
  have tab: "dtypes ?cat ''P'' = Some ?rec" by (simp add: new_catalog_def)
  have val: "fst (getCtype 5 8 ?cat ''P'' None) = Inr (Some (Dummy 5))" by code_simp
  have res: "getCtype 5 8 ?cat ''P'' None = (Inr (Some (Dummy 5)), snd (getCtype 5 8 ?cat ''P'' None))"
    using val by (simp add: prod_eq_iff)
  have sz: "sizeof 8 (Structure ''P'' [(''a'', c_byte), (''b'', c_int32)]) = 8" by code_simp
  from getCtype_declared_size [OF memo nostr tab res]
  have "sizeof 8 (Dummy 5) = 5
        \<and> ctypes (snd (getCtype 5 8 ?cat ''P'' None)) ''P'' = Some (Dummy 5)"
    by auto
  then show ?thesis using memo nostr val sz by simp
qed

text \<open>
  C3 as stated fails for a name that the table holds but that is resolved without the
  table: a name matching the string pattern gets the string layout (6 bytes for
  \<^verbatim>\<open>STRING(5)\<close>, whatever the record declares), and a built-in name is answered from
  the memo (2 bytes for \<^verbatim>\<open>INT\<close>).
\<close>

theorem getCtype_declared_size_counterexample:
  "fst (getCtype 5 8
          (new_catalog [''STRING(5)'' \<mapsto> type_record ''STRING(5)'' [] 10 0 [] []])
          ''STRING(5)'' None) = Inr (Some (PLCString 5))
   \<and> sizeof 8 (PLCString 5) = 6
   \<and> dt_size (type_record ''STRING(5)'' [] 10 0 [] []) = 10
   \<and> fst (getCtype 5 8 (new_catalog [''INT'' \<mapsto> type_record ''INT'' [] 4 0 [] []])
          ''INT'' None) = Inr (Some c_int16)
   \<and> sizeof 8 c_int16 = 2
   \<and> dt_size (type_record ''INT'' [] 4 0 [] []) = 4"
  by code_simp

text \<open>
  C4, as amended: for every type name and size hint, a second call of \<open>getCtype\<close> returns
  the same result as the first and leaves the memo as the first call left it. Every
  result for a name that is memoized, matches the string pattern or is in the table is
  stored in the memo by the first call, and the second call is a lookup that changes
  nothing. The \<open>Dummy\<close> layout (or \<^verbatim>\<open>None\<close>) for a name that is absent from the table
  is not stored: the second call builds it again and warns again.
\<close>

theorem getCtype_idempotent:
  assumes res: "getCtype depth psz self dtypename size_hint = (Inr r, self')"
  shows "fst (getCtype (Suc depth2) psz self' dtypename size_hint) = Inr r
       \<and> ctypes (snd (getCtype (Suc depth2) psz self' dtypename size_hint)) = ctypes self'
       \<and> (ctypes self dtypename \<noteq> None \<or> stringMatch dtypename \<noteq> None
            \<or> dtypes self dtypename \<noteq> None \<longrightarrow>
              ctypes self' dtypename = r
            \<and> getCtype (Suc depth2) psz self' dtypename size_hint = (Inr r, self'))
       \<and> (ctypes self dtypename = None \<and> stringMatch dtypename = None
            \<and> dtypes self dtypename = None \<longrightarrow>
              ctypes self' dtypename = None
            \<and> warnings (snd (getCtype (Suc depth2) psz self' dtypename size_hint))
                \<noteq> warnings self')"
proof (cases depth)
  case 0
  then show ?thesis using res by simp
next
  case (Suc d)
  show ?thesis
  proof (cases "ctypes self dtypename")
    case (Some c)
    then have "r = Some c" "self' = self" using res Suc by simp_all
    then show ?thesis using Some by simp
  next
    case memo: None
    show ?thesis
    proof (cases "stringMatch dtypename")
      case (Some n)
      then show ?thesis using res Suc memo by auto
    next
      case nostr: None
      show ?thesis
      proof (cases "dtypes self dtypename")
        case None
        then show ?thesis using res Suc memo nostr
          by (cases size_hint) (auto simp: warn_def)
      next
        case (Some dtype)
        obtain x self0 where syn: "synthesize (getCtype d psz) self dtypename dtype = (x, self0)"
          by (cases "synthesize (getCtype d psz) self dtypename dtype")
        show ?thesis
        proof (cases x)
          case (Inl e)
          then show ?thesis using res memo nostr Some syn Suc by simp
        next
          case (Inr c)
          then show ?thesis
            using res memo nostr Some syn Suc
            by (auto simp: Let_def split: if_splits)
        qed
      qed
    qed
  qed
qed

theorem getCtype_idempotent_witness:
  "fst (getCtype 5 8 (new_catalog [''A'' \<mapsto> type_record ''A'' ''BYTE'' 6 0 [(0, 2), (- 1, 3)] []])
          ''A'' None) = Inr (Some (CArray 2 (NonzeroBasedArrayType c_byte (- 1) 3)))
   \<and> dtypes (new_catalog [''A'' \<mapsto> type_record ''A'' ''BYTE'' 6 0 [(0, 2), (- 1, 3)] []]) ''A''
       \<noteq> None
   \<and> fst (getCtype (Suc 0) 8
            (snd (getCtype 5 8
                    (new_catalog [''A'' \<mapsto> type_record ''A'' ''BYTE'' 6 0 [(0, 2), (- 1, 3)] []])
                    ''A'' None))
            ''A'' None) = Inr (Some (CArray 2 (NonzeroBasedArrayType c_byte (- 1) 3)))
   \<and> ctypes (snd (getCtype 5 8
                    (new_catalog [''A'' \<mapsto> type_record ''A'' ''BYTE'' 6 0 [(0, 2), (- 1, 3)] []])
                    ''A'' None)) ''A''
       = Some (CArray 2 (NonzeroBasedArrayType c_byte (- 1) 3))"
proof -
  let ?cat = "new_catalog [''A'' \<mapsto> type_record ''A'' ''BYTE'' 6 0 [(0, 2), (- 1, 3)] []]"
  let ?T = "CArray 2 (NonzeroBasedArrayType c_byte (- 1) 3)"
  have val: "fst (getCtype 5 8 ?cat ''A'' None) = Inr (Some ?T)" by code_simp
  have res: "getCtype 5 8 ?cat ''A'' None = (Inr (Some ?T), snd (getCtype 5 8 ?cat ''A'' None))"
    using val by (simp add: prod_eq_iff)
  have tab: "dtypes ?cat ''A'' \<noteq> None" by (simp add: new_catalog_def)
  from getCtype_idempotent [OF res, of 0] tab
  have "fst (getCtype (Suc 0) 8 (snd (getCtype 5 8 ?cat ''A'' None)) ''A'' None) = Inr (Some ?T)
        \<and> ctypes (snd (getCtype 5 8 ?cat ''A'' None)) ''A'' = Some ?T"
    by simp
  then show ?thesis using val tab by simp
qed

text \<open>
  C4 as stated fails for a name that is absent from the table when a size is known: the
  \<open>Dummy\<close> layout is returned without being stored, and a second call does the same
  work again.
\<close>

theorem getCtype_idempotent_counterexample:
  "fst (getCtype 5 8 (new_catalog Map.empty) ''FOO'' (Some 4)) = Inr (Some (Dummy 4))
   \<and> ctypes (snd (getCtype 5 8 (new_catalog Map.empty) ''FOO'' (Some 4))) ''FOO'' = None
   \<and> warnings (snd (getCtype 5 8 (new_catalog Map.empty) ''FOO'' (Some 4)))
       = [UnknownTypeKnownSize ''FOO'' 4]
   \<and> warnings (snd (getCtype 5 8 (snd (getCtype 5 8 (new_catalog Map.empty) ''FOO'' (Some 4)))
                       ''FOO'' (Some 4)))
       = [UnknownTypeKnownSize ''FOO'' 4, UnknownTypeKnownSize ''FOO'' 4]"
  by code_simp

subsection \<open>The member loop against the specification\<close>

lemma struct_fields_spec:
  "struct_fields getC members off flds self = (Inr (flds', off'), self') \<Longrightarrow>
   off' = spec_cursor members off
   \<and> (\<exists>cs. flds' = flds @ spec_fields Some (spec_slots members off) cs
          \<and> list_all2 (\<lambda>s c. \<exists>st. fst (getC st (dt_type s) (dt_size s)) = Inr c)
               (spec_kept members off) cs)"
proof (induction members arbitrary: off flds self)
  case Nil
  then show ?case by simp
next
  case (Cons s rest)
  show ?case
  proof (cases "dt_offs s < off")
    case True
    then have "struct_fields getC rest off flds (warn UnionNotSupported self)
                 = (Inr (flds', off'), self')"
      using Cons.prems by simp
    from Cons.IH [OF this] show ?thesis using True by simp
  next
    case False
    define pad where "pad = (if dt_offs s > off
                             then [([] :: string, Some (CArray (dt_offs s - off) c_char))] else [])"
    obtain r self1 where res: "getC self (dt_type s) (dt_size s) = (r, self1)"
      by (cases "getC self (dt_type s) (dt_size s)")
    have step: "struct_fields getC (s # rest) off flds self =
                  (case r of Inl e \<Rightarrow> (Inl e, self1)
                   | Inr c \<Rightarrow> struct_fields getC rest (dt_offs s + dt_size s)
                                (flds @ pad @ [(dt_name s, c)]) self1)"
      using False res by (auto simp: pad_def split: sum.splits)
    then obtain c where r: "r = Inr c"
      and rec: "struct_fields getC rest (dt_offs s + dt_size s)
                  (flds @ pad @ [(dt_name s, c)]) self1 = (Inr (flds', off'), self')"
      using Cons.prems by (cases r) auto
    from Cons.IH [OF rec] obtain cs where
      cur: "off' = spec_cursor rest (dt_offs s + dt_size s)"
      and fl: "flds' = (flds @ pad @ [(dt_name s, c)])
                 @ spec_fields Some (spec_slots rest (dt_offs s + dt_size s)) cs"
      and al: "list_all2 (\<lambda>s c. \<exists>st. fst (getC st (dt_type s) (dt_size s)) = Inr c)
                 (spec_kept rest (dt_offs s + dt_size s)) cs"
      by blast
    have here: "\<exists>st. fst (getC st (dt_type s) (dt_size s)) = Inr c"
      using res r by (intro exI [of _ self]) simp
    have A: "flds' = flds @ spec_fields Some (spec_slots (s # rest) off) (c # cs)"
      using fl False by (auto simp: pad_def)
    have B: "list_all2 (\<lambda>s c. \<exists>st. fst (getC st (dt_type s) (dt_size s)) = Inr c)
                     (spec_kept (s # rest) off) (c # cs)"
      using al here False by simp
    have C: "off' = spec_cursor (s # rest) off" using cur False by simp
    show ?thesis using A B C by blast
  qed
qed

lemma struct_fields_warnings:
  assumes app: "\<forall>st n z. \<exists>ws. warnings (snd (getC st n z)) = warnings st @ ws"
  shows "\<exists>ws. warnings (snd (struct_fields getC members off flds self)) = warnings self @ ws
           \<and> ((\<exists>res. fst (struct_fields getC members off flds self) = Inr res) \<longrightarrow>
                length (spec_skipped members off) \<le> count_list ws UnionNotSupported)"
proof (induction members arbitrary: off flds self)
  case Nil
  then show ?case by simp
next
  case (Cons s rest)
  show ?case
  proof (cases "dt_offs s < off")
    case True
    from Cons.IH [of off flds "warn UnionNotSupported self"] obtain ws where
      w: "warnings (snd (struct_fields getC rest off flds (warn UnionNotSupported self)))
            = warnings (warn UnionNotSupported self) @ ws"
      and c: "(\<exists>res. fst (struct_fields getC rest off flds (warn UnionNotSupported self)) = Inr res)
               \<longrightarrow> length (spec_skipped rest off) \<le> count_list ws UnionNotSupported"
      by blast
    show ?thesis
      using True w c by (intro exI [of _ "UnionNotSupported # ws"]) (auto simp: warn_def)
  next
    case False
    define pad where "pad = (if dt_offs s > off
                             then [([] :: string, Some (CArray (dt_offs s - off) c_char))] else [])"
    obtain r self1 where res: "getC self (dt_type s) (dt_size s) = (r, self1)"
      by (cases "getC self (dt_type s) (dt_size s)")
    from app obtain ws1 where w1: "warnings self1 = warnings self @ ws1"
      using res by (metis snd_conv)
    have step: "struct_fields getC (s # rest) off flds self =
                  (case r of Inl e \<Rightarrow> (Inl e, self1)
                   | Inr c \<Rightarrow> struct_fields getC rest (dt_offs s + dt_size s)
                                (flds @ pad @ [(dt_name s, c)]) self1)"
      using False res by (auto simp: pad_def split: sum.splits)
    show ?thesis
    proof (cases r)
      case (Inl e)
      then show ?thesis using step w1 by simp
    next
      case (Inr c)
      from Cons.IH [of "dt_offs s + dt_size s" "flds @ pad @ [(dt_name s, c)]" self1]
      obtain ws where
        w: "warnings (snd (struct_fields getC rest (dt_offs s + dt_size s)
                             (flds @ pad @ [(dt_name s, c)]) self1)) = warnings self1 @ ws"
        and cnt: "(\<exists>res. fst (struct_fields getC rest (dt_offs s + dt_size s)
                             (flds @ pad @ [(dt_name s, c)]) self1) = Inr res)
               \<longrightarrow> length (spec_skipped rest (dt_offs s + dt_size s))
                     \<le> count_list ws UnionNotSupported"
        by blast
      show ?thesis
        using step Inr w cnt w1 False
        by (intro exI [of _ "ws1 @ ws"]) (auto simp: count_list_append)
    qed
  qed
qed

lemma struct_fields_total:
  assumes tot: "\<forall>st n z. \<exists>r. fst (getC st n z) = Inr r"
  shows "\<exists>res. fst (struct_fields getC members off flds self) = Inr res"
proof (induction members arbitrary: off flds self)
  case Nil
  then show ?case by simp
next
  case (Cons s rest)
  obtain r self1 where res: "getC self (dt_type s) (dt_size s) = (r, self1)"
    by (cases "getC self (dt_type s) (dt_size s)")
  obtain c where r: "r = Inr c" using tot res by (metis fst_conv)
  show ?case
    using Cons.IH res r by (cases "dt_offs s < off") (auto)
qed

lemma struct_fields_errors:
  assumes err: "\<And>st n z e. fst (getC st n z) = Inl e \<Longrightarrow> P e"
  shows "fst (struct_fields getC members off flds self) = Inl e \<Longrightarrow> P e"
proof (induction members arbitrary: off flds self)
  case Nil
  then show ?case by simp
next
  case (Cons s rest)
  obtain r self1 where res: "getC self (dt_type s) (dt_size s) = (r, self1)"
    by (cases "getC self (dt_type s) (dt_size s)")
  show ?case
  proof (cases "dt_offs s < off")
    case True
    then show ?thesis using Cons by simp
  next
    case False
    show ?thesis
    proof (cases r)
      case (Inl e')
      then have "e = e'" using Cons.prems res False by (auto split: if_splits)
      moreover have "P e'" using err [of self "dt_type s" "dt_size s" e'] res Inl by simp
      ultimately show ?thesis by simp
    next
      case (Inr c)
      then show ?thesis using Cons res False by (auto split: if_splits)
    qed
  qed
qed

lemma member_slots_kept:
  "length (filter (\<lambda>sl. case sl of Member s \<Rightarrow> True | Padding n \<Rightarrow> False) (spec_slots members off))
     = length (spec_kept members off)"
  by (induction members arbitrary: off) auto

lemma spec_fields_final_padding:
  "length (filter (\<lambda>sl. case sl of Member s \<Rightarrow> True | Padding n \<Rightarrow> False) slots) \<le> length cs \<Longrightarrow>
   spec_fields mk (slots @ [Padding k]) cs = spec_fields mk slots cs @ [([], mk (CArray k c_char))]"
proof (induction slots arbitrary: cs)
  case Nil
  then show ?case by simp
next
  case (Cons sl slots)
  show ?case
  proof (cases sl)
    case (Padding n)
    then show ?thesis using Cons by simp
  next
    case (Member s)
    then obtain c cs' where "cs = c # cs'" using Cons.prems by (cases cs) auto
    then show ?thesis using Cons Member by simp
  qed
qed

lemma those_spec_fields:
  "length (filter (\<lambda>sl. case sl of Member s \<Rightarrow> True | Padding n \<Rightarrow> False) slots) = length cs \<Longrightarrow>
   those (map snd (spec_fields Some slots cs)) = Some ts \<Longrightarrow>
   \<exists>ts'. cs = map Some ts'
         \<and> zip (map fst (spec_fields Some slots cs)) ts = spec_fields (\<lambda>t. t) slots ts'"
proof (induction slots arbitrary: cs ts)
  case Nil
  then show ?case by simp
next
  case (Cons sl slots)
  show ?case
  proof (cases sl)
    case (Padding n)
    from Cons.prems(2) Padding obtain ts0 where
      ts: "ts = CArray n c_char # ts0"
      and th: "those (map snd (spec_fields Some slots cs)) = Some ts0"
      by (auto split: option.splits)
    have len: "length (filter (\<lambda>sl. case sl of Member s \<Rightarrow> True | Padding n \<Rightarrow> False) slots)
                 = length cs"
      using Cons.prems(1) Padding by simp
    from Cons.IH [OF len th] obtain ts' where
      "cs = map Some ts'"
      "zip (map fst (spec_fields Some slots cs)) ts0 = spec_fields (\<lambda>t. t) slots ts'"
      by blast
    then show ?thesis using Padding ts by auto
  next
    case (Member s)
    then obtain c cs' where cs: "cs = c # cs'" using Cons.prems(1) by (cases cs) auto
    from Cons.prems(2) Member cs obtain t ts0 where
      c: "c = Some t" and ts: "ts = t # ts0"
      and th: "those (map snd (spec_fields Some slots cs')) = Some ts0"
      by (auto split: option.splits)
    have len: "length (filter (\<lambda>sl. case sl of Member s \<Rightarrow> True | Padding n \<Rightarrow> False) slots)
                 = length cs'"
      using Cons.prems(1) Member cs by simp
    from Cons.IH [OF len th] obtain ts' where
      a: "cs' = map Some ts'"
      and b: "zip (map fst (spec_fields Some slots cs')) ts0 = spec_fields (\<lambda>t. t) slots ts'"
      by blast
    show ?thesis
      using Member cs c ts a b by (intro exI [of _ "t # ts'"]) simp
  qed
qed

text \<open>
  The structure branch of layout synthesis: the class it builds has exactly the fields
  of the specification's slots, the members' layouts being those the recursive call
  returned for the member's type name with the member's size as hint.
\<close>

lemma synthesize_structure:
  assumes shape: "\<not> startswith (dt_name dtype) ''POINTER TO ''"
      "dt_subItems dtype \<noteq> []" "dt_type dtype = []"
    and res: "synthesize getC self dtypename dtype = (Inr ct, self')"
  shows "\<exists>ts. ct = Structure (dt_name dtype) (spec_fields (\<lambda>t. t) (spec_layout dtype) ts)
           \<and> list_all2 (\<lambda>s t. \<exists>st. fst (getC st (dt_type s) (Some (dt_size s))) = Inr (Some t))
                (spec_kept (map snd (dt_subItems dtype)) 0) ts"
proof -
  let ?getC = "\<lambda>self name sz. getC self name (Some sz)"
  let ?ms = "map snd (dt_subItems dtype)"
  let ?isM = "\<lambda>sl. case sl of Member s \<Rightarrow> True | Padding n \<Rightarrow> False"
  obtain x self1 where loop: "struct_fields ?getC ?ms 0 [] self = (x, self1)"
    by (cases "struct_fields ?getC ?ms 0 [] self")
  have unfold: "synthesize getC self dtypename dtype =
      (case x of
         Inl e \<Rightarrow> (Inl e, self1)
       | Inr (flds, off) \<Rightarrow>
           (let flds = (if off < dt_size dtype
                        then flds @ [([], Some (CArray (dt_size dtype - off) c_char))]
                        else flds)
            in (case those (map snd flds) of
                  None \<Rightarrow> (Inl TypeError, self1)
                | Some ts \<Rightarrow>
                    (Inr (Structure (dt_name dtype) (zip (map fst flds) ts)), self1))))"
    using shape loop by (simp add: synthesize_def split: sum.splits)
  obtain flds off where x: "x = Inr (flds, off)"
    using res unfold by (cases x) auto
  from struct_fields_spec [OF loop [unfolded x]] obtain cs where
    off: "off = spec_cursor ?ms 0"
    and fl: "flds = spec_fields Some (spec_slots ?ms 0) cs"
    and al: "list_all2 (\<lambda>s c. \<exists>st. fst (getC st (dt_type s) (Some (dt_size s))) = Inr c)
               (spec_kept ?ms 0) cs"
    by auto
  have len: "length (filter ?isM (spec_slots ?ms 0)) = length cs"
    using al member_slots_kept [of ?ms 0] by (auto dest: list_all2_lengthD)
  define final where
    "final = (if off < dt_size dtype
              then flds @ [([], Some (CArray (dt_size dtype - off) c_char))] else flds)"
  have final: "final = spec_fields Some (spec_layout dtype) cs"
    using len spec_fields_final_padding [of "spec_slots ?ms 0" cs Some "dt_size dtype - off"]
    by (simp add: final_def fl off spec_layout_def Let_def)
  have len': "length (filter ?isM (spec_layout dtype)) = length cs"
    using len by (simp add: spec_layout_def Let_def)
  obtain ts0 where th: "those (map snd final) = Some ts0"
    and ct: "ct = Structure (dt_name dtype) (zip (map fst final) ts0)"
    using res unfold x by (auto simp: final_def Let_def split: option.splits if_splits)
  from those_spec_fields [OF len' th [unfolded final]] obtain ts where
    cs: "cs = map Some ts"
    and zp: "zip (map fst (spec_fields Some (spec_layout dtype) cs)) ts0
               = spec_fields (\<lambda>t. t) (spec_layout dtype) ts"
    by blast
  have "list_all2 (\<lambda>s t. \<exists>st. fst (getC st (dt_type s) (Some (dt_size s))) = Inr (Some t))
          (spec_kept ?ms 0) ts"
    using al unfolding cs by (simp add: list_all2_map2)
  then show ?thesis using ct zp final by auto
qed

subsection \<open>What layout synthesis raises and what it does to the warnings\<close>

lemma synthesize_errors:
  assumes err: "\<And>st n z e. fst (getC st n z) = Inl e \<Longrightarrow> P e"
    and P: "P ZeroDivisionError" "P AssertionError" "P TypeError"
  shows "fst (synthesize getC self dtypename dtype) = Inl e \<Longrightarrow> P e"
proof -
  assume a: "fst (synthesize getC self dtypename dtype) = Inl e"
  let ?getC = "\<lambda>self name sz. getC self name (Some sz)"
  have err': "getC st n z = (Inl e', st') \<Longrightarrow> P e'" for st n z e' st'
    using err [of st n z e'] by simp
  have loop: "struct_fields ?getC ms off flds st = (Inl e', st') \<Longrightarrow> P e'"
    for ms off flds st e' st'
    using struct_fields_errors [of ?getC P ms off flds st e'] err by simp
  show "P e"
    using a P err' loop [of "map snd (dt_subItems dtype)" 0 "[]" self]
    unfolding synthesize_def
    by (auto simp: Let_def split: if_splits sum.splits prod.splits option.splits)
qed

lemma getCtype_errors:
  "fst (getCtype depth psz self dtypename size_hint) = Inl e \<Longrightarrow>
   e \<in> {RecursionError, ZeroDivisionError, AssertionError, TypeError}"
proof (induction depth arbitrary: self dtypename size_hint e)
  case 0
  then show ?case by simp
next
  case (Suc depth)
  have syn: "fst (synthesize (getCtype depth psz) st n d) = Inl e' \<Longrightarrow>
             e' \<in> {RecursionError, ZeroDivisionError, AssertionError, TypeError}" for st n d e'
    by (rule synthesize_errors [where P = "\<lambda>e. e \<in> {RecursionError, ZeroDivisionError, AssertionError, TypeError}"
              and getC = "getCtype depth psz"])
       (auto dest: Suc.IH)
  have syn': "synthesize (getCtype depth psz) st n d = (Inl e', st') \<Longrightarrow>
             e' \<in> {RecursionError, ZeroDivisionError, AssertionError, TypeError}"
    for st n d e' st'
    using syn [of st n d e'] by simp
  show ?case
    using Suc.prems syn'
    by (auto simp: Let_def split: option.splits sum.splits prod.splits if_splits)
qed

lemma synthesize_warnings:
  assumes app: "\<forall>st n z. \<exists>ws. warnings (snd (getC st n z)) = warnings st @ ws"
  shows "\<exists>ws. warnings (snd (synthesize getC self dtypename dtype)) = warnings self @ ws"
proof -
  let ?getC = "\<lambda>self name sz. getC self name (Some sz)"
  have "\<forall>st n z. \<exists>ws. warnings (snd (?getC st n z)) = warnings st @ ws"
    using app by blast
  from struct_fields_warnings [OF this, of "map snd (dt_subItems dtype)" 0 "[]" self]
  obtain ws where loop: "warnings (snd (struct_fields ?getC (map snd (dt_subItems dtype)) 0 [] self))
                          = warnings self @ ws"
    by blast
  obtain ws1 where als: "warnings (snd (getC self (dt_type dtype)
        (Some (dt_size dtype div fold (\<lambda>(lbound, elements) arraysize. arraysize * elements)
                              (dt_array dtype) 1)))) = warnings self @ ws1"
    using app by blast
  show ?thesis
    using loop als unfolding synthesize_def
    by (auto simp: Let_def warn_def split: if_splits sum.splits prod.splits option.splits)
qed

lemma getCtype_warnings:
  "\<exists>ws. warnings (snd (getCtype depth psz self dtypename size_hint)) = warnings self @ ws"
proof (induction depth arbitrary: self dtypename size_hint)
  case 0
  then show ?case by simp
next
  case (Suc depth)
  have "\<forall>st n z. \<exists>ws. warnings (snd (getCtype depth psz st n z)) = warnings st @ ws"
    using Suc.IH by blast
  from synthesize_warnings [OF this] have syn:
    "\<exists>ws. warnings (snd (synthesize (getCtype depth psz) self dtypename d)) = warnings self @ ws"
    for d by blast
  show ?case
  proof (cases "ctypes self dtypename")
    case (Some c)
    then show ?thesis by simp
  next
    case memo: None
    show ?thesis
    proof (cases "stringMatch dtypename")
      case (Some n)
      then show ?thesis using memo by simp
    next
      case nostr: None
      show ?thesis
      proof (cases "dtypes self dtypename")
        case None
        then show ?thesis using memo nostr by (cases size_hint) (auto simp: warn_def)
      next
        case (Some d)
        obtain x self0 where s: "synthesize (getCtype depth psz) self dtypename d = (x, self0)"
          by (cases "synthesize (getCtype depth psz) self dtypename d")
        from syn [of d] s obtain ws where "warnings self0 = warnings self @ ws" by auto
        then show ?thesis
          using memo nostr Some s
          by (cases x) (auto simp: Let_def warn_def)
      qed
    qed
  qed
qed

text \<open>
  C6: when a structure layout is synthesized, the members are processed in declared order
  with a byte cursor starting at 0. For every member whose declared offset exceeds the
  cursor, an anonymous padding field of exactly (offset - cursor) bytes is inserted
  before it; a member whose offset is below the cursor is skipped with a warning and the
  structure is not failed; and if after all members the cursor is still below the
  declared total size, one final anonymous padding field fills the gap. Two 4-byte
  members at offsets 0 and 8 with declared size 12 give the first member, one 4-byte
  padding field, the second member, and no trailing padding.

  Whenever the member loop returns, its cursor and its fields are those of the
  specification, each kept member with a layout the recursive call returned for it;
  skipping a single member appends exactly the warning, and over a whole loop at least
  one such warning per skipped member is appended, provided the recursive call only
  appends warnings (as \<open>getCtype\<close> does); a loop whose recursive calls return does not
  fail; and the structure class has the fields of the specification's layout, final
  padding included.
\<close>

theorem struct_fields_padding:
  "(struct_fields getC members off flds self = (Inr (flds', off'), self') \<longrightarrow>
      off' = spec_cursor members off
      \<and> (\<exists>cs. flds' = flds @ spec_fields Some (spec_slots members off) cs
             \<and> list_all2 (\<lambda>s c. \<exists>st. fst (getC st (dt_type s) (dt_size s)) = Inr c)
                  (spec_kept members off) cs))
   \<and> (dt_offs s < off \<longrightarrow>
        struct_fields getC [s] off flds self
          = (Inr (flds, off), self\<lparr>warnings := warnings self @ [UnionNotSupported]\<rparr>))
   \<and> ((\<forall>st n z. \<exists>ws. warnings (snd (getC st n z)) = warnings st @ ws)
        \<and> struct_fields getC members off flds self = (Inr (flds', off'), self') \<longrightarrow>
        (\<exists>ws. warnings self' = warnings self @ ws
              \<and> length (spec_skipped members off) \<le> count_list ws UnionNotSupported))
   \<and> ((\<forall>st n z. \<exists>r. fst (getC st n z) = Inr r) \<longrightarrow>
        (\<exists>res. fst (struct_fields getC members off flds self) = Inr res))
   \<and> (\<not> startswith (dt_name dtype) ''POINTER TO '' \<and> dt_subItems dtype \<noteq> []
        \<and> dt_type dtype = []
        \<and> synthesize getC2 self2 dtypename dtype = (Inr ct, self3) \<longrightarrow>
        (\<exists>ts. ct = Structure (dt_name dtype) (spec_fields (\<lambda>t. t) (spec_layout dtype) ts)
              \<and> list_all2
                   (\<lambda>s t. \<exists>st. fst (getC2 st (dt_type s) (Some (dt_size s))) = Inr (Some t))
                   (spec_kept (map snd (dt_subItems dtype)) 0) ts))
   \<and> (\<not> startswith (dt_name dtype) ''POINTER TO '' \<and> dt_type dtype = []
        \<and> dt_subItems dtype = [(k1, s1), (k2, s2)]
        \<and> dt_offs s1 = 0 \<and> dt_size s1 = 4 \<and> dt_offs s2 = 8 \<and> dt_size s2 = 4
        \<and> dt_size dtype = 12
        \<and> synthesize getC2 self2 dtypename dtype = (Inr ct, self3) \<longrightarrow>
        (\<exists>c1 c2. ct = Structure (dt_name dtype)
                         [(dt_name s1, c1), ([], CArray 4 c_char), (dt_name s2, c2)]))"
proof (intro conjI impI)
  assume "struct_fields getC members off flds self = (Inr (flds', off'), self')"
  from struct_fields_spec [OF this]
  show "off' = spec_cursor members off"
    and "\<exists>cs. flds' = flds @ spec_fields Some (spec_slots members off) cs
             \<and> list_all2 (\<lambda>s c. \<exists>st. fst (getC st (dt_type s) (dt_size s)) = Inr c)
                  (spec_kept members off) cs"
    by simp_all
next
  assume "dt_offs s < off"
  then show "struct_fields getC [s] off flds self
          = (Inr (flds, off), self\<lparr>warnings := warnings self @ [UnionNotSupported]\<rparr>)"
    by (simp add: warn_def)
next
  assume a: "(\<forall>st n z. \<exists>ws. warnings (snd (getC st n z)) = warnings st @ ws)
        \<and> struct_fields getC members off flds self = (Inr (flds', off'), self')"
  then have app: "\<forall>st n z. \<exists>ws. warnings (snd (getC st n z)) = warnings st @ ws"
    and res: "struct_fields getC members off flds self = (Inr (flds', off'), self')"
    by simp_all
  from struct_fields_warnings [OF app, of members off flds self] res
  show "\<exists>ws. warnings self' = warnings self @ ws
              \<and> length (spec_skipped members off) \<le> count_list ws UnionNotSupported"
    by simp
next
  assume "\<forall>st n z. \<exists>r. fst (getC st n z) = Inr r"
  then show "\<exists>res. fst (struct_fields getC members off flds self) = Inr res"
    by (rule struct_fields_total)
next
  assume a: "\<not> startswith (dt_name dtype) ''POINTER TO '' \<and> dt_subItems dtype \<noteq> []
        \<and> dt_type dtype = []
        \<and> synthesize getC2 self2 dtypename dtype = (Inr ct, self3)"
  then show "\<exists>ts. ct = Structure (dt_name dtype) (spec_fields (\<lambda>t. t) (spec_layout dtype) ts)
              \<and> list_all2
                   (\<lambda>s t. \<exists>st. fst (getC2 st (dt_type s) (Some (dt_size s))) = Inr (Some t))
                   (spec_kept (map snd (dt_subItems dtype)) 0) ts"
    using synthesize_structure [of dtype getC2 self2 dtypename ct self3] by simp
next
  assume a: "\<not> startswith (dt_name dtype) ''POINTER TO '' \<and> dt_type dtype = []
        \<and> dt_subItems dtype = [(k1, s1), (k2, s2)]
        \<and> dt_offs s1 = 0 \<and> dt_size s1 = 4 \<and> dt_offs s2 = 8 \<and> dt_size s2 = 4
        \<and> dt_size dtype = 12
        \<and> synthesize getC2 self2 dtypename dtype = (Inr ct, self3)"
  then have lay: "spec_layout dtype = [Member s1, Padding 4, Member s2]"
    and kept: "spec_kept (map snd (dt_subItems dtype)) 0 = [s1, s2]"
    by (simp_all add: spec_layout_def)
  from a synthesize_structure [of dtype getC2 self2 dtypename ct self3]
  obtain ts where ct: "ct = Structure (dt_name dtype) (spec_fields (\<lambda>t. t) (spec_layout dtype) ts)"
    and al: "list_all2
               (\<lambda>s t. \<exists>st. fst (getC2 st (dt_type s) (Some (dt_size s))) = Inr (Some t))
               (spec_kept (map snd (dt_subItems dtype)) 0) ts"
    by auto
  from al kept obtain c1 c2 where "ts = [c1, c2]"
    by (auto simp: list_all2_Cons1)
  then show "\<exists>c1 c2. ct = Structure (dt_name dtype)
                         [(dt_name s1, c1), ([], CArray 4 c_char), (dt_name s2, c2)]"
    using ct lay by simp
qed

theorem struct_fields_padding_witness:
  "dt_offs member_x < 4
   \<and> struct_fields (\<lambda>st n z. getCtype (Suc 0) 8 st n (Some z))
        [member_a, member_x, member_b] 0 [] catalog_U
       = (Inr ([(''a'', Some c_int32), ([], Some (CArray 4 c_char)), (''b'', Some c_int32)], 12),
          catalog_U\<lparr>warnings := [UnionNotSupported]\<rparr>)
   \<and> spec_cursor [member_a, member_x, member_b] 0 = 12
   \<and> spec_slots [member_a, member_x, member_b] 0 = [Member member_a, Padding 4, Member member_b]
   \<and> spec_skipped [member_a, member_x, member_b] 0 = [member_x]
   \<and> (\<exists>ws. warnings (catalog_U\<lparr>warnings := [UnionNotSupported]\<rparr>) = warnings catalog_U @ ws
          \<and> 1 \<le> count_list ws UnionNotSupported)
   \<and> struct_fields (\<lambda>st n z. getCtype (Suc 0) 8 st n (Some z)) [member_x] 4 [] catalog_U
       = (Inr ([], 4), catalog_U\<lparr>warnings := [UnionNotSupported]\<rparr>)
   \<and> synthesize (getCtype (Suc 0) 8) catalog_S ''S'' struct_S
       = (Inr (Structure ''S'' [(''a'', c_int32), ([], CArray 4 c_char), (''b'', c_int32)]),
          catalog_S)
   \<and> fst (getCtype 5 8 catalog_S ''S'' None)
       = Inr (Some (Structure ''S'' [(''a'', c_int32), ([], CArray 4 c_char), (''b'', c_int32)]))
   \<and> warnings (snd (getCtype 5 8 catalog_S ''S'' None)) = []
   \<and> fst (getCtype 5 8 catalog_U ''U'' None)
       = Inr (Some (Structure ''U'' [(''a'', c_int32), ([], CArray 4 c_char), (''b'', c_int32)]))
   \<and> warnings (snd (getCtype 5 8 catalog_U ''U'' None)) = [UnionNotSupported]"
proof -
  let ?getC = "\<lambda>st n z. getCtype (Suc 0) 8 st n (Some z)"
  let ?F = "[(''a'', Some c_int32), ([], Some (CArray 4 c_char)), (''b'', Some c_int32)]"
  let ?U' = "catalog_U\<lparr>warnings := [UnionNotSupported]\<rparr>"
  have app: "\<forall>st n z. \<exists>ws. warnings (snd (?getC st n z)) = warnings st @ ws"
    using getCtype_warnings by blast
  have tot: "dt_offs member_x < 4" by simp
  have loop: "struct_fields ?getC [member_a, member_x, member_b] 0 [] catalog_U = (Inr (?F, 12), ?U')"
    by (simp add: new_catalog_def basictypes_def warn_def)
  have syn: "synthesize (getCtype (Suc 0) 8) catalog_S ''S'' struct_S
       = (Inr (Structure ''S'' [(''a'', c_int32), ([], CArray 4 c_char), (''b'', c_int32)]),
          catalog_S)"
    by (simp add: synthesize_def new_catalog_def basictypes_def startswith_def)
  note inst = struct_fields_padding [where getC = ?getC
      and members = "[member_a, member_x, member_b]" and off = 0 and flds = "[]"
      and self = catalog_U and flds' = ?F and off' = 12 and self' = ?U'
      and dtype = struct_S and ?getC2.0 = "getCtype (Suc 0) 8" and ?self2.0 = catalog_S
      and dtypename = "''S''" and ?self3.0 = catalog_S
      and ct = "Structure ''S'' [(''a'', c_int32), ([], CArray 4 c_char), (''b'', c_int32)]"
      and ?k1.0 = "''a''" and ?s1.0 = member_a and ?k2.0 = "''b''" and ?s2.0 = member_b]
  have cur: "spec_cursor [member_a, member_x, member_b] 0 = 12"
    using inst loop by simp
  have skipped: "spec_skipped [member_a, member_x, member_b] 0 = [member_x]" by simp
  have cnt: "\<exists>ws. warnings ?U' = warnings catalog_U @ ws \<and> 1 \<le> count_list ws UnionNotSupported"
    using inst app loop skipped by simp
  have skip: "struct_fields ?getC [member_x] 4 [] catalog_U = (Inr ([], 4), ?U')"
    using struct_fields_padding [where getC = ?getC and s = member_x and off = 4
            and flds = "[]" and self = catalog_U]
    by (simp add: new_catalog_def)
  have slots: "spec_slots [member_a, member_x, member_b] 0
                 = [Member member_a, Padding 4, Member member_b]"
    by simp
  have full: "fst (getCtype 5 8 catalog_S ''S'' None)
       = Inr (Some (Structure ''S'' [(''a'', c_int32), ([], CArray 4 c_char), (''b'', c_int32)]))"
    by code_simp
  have quiet: "warnings (snd (getCtype 5 8 catalog_S ''S'' None)) = []" by code_simp
  have fullU: "fst (getCtype 5 8 catalog_U ''U'' None)
       = Inr (Some (Structure ''U'' [(''a'', c_int32), ([], CArray 4 c_char), (''b'', c_int32)]))"
    by code_simp
  have warned: "warnings (snd (getCtype 5 8 catalog_U ''U'' None)) = [UnionNotSupported]"
    by code_simp
  show ?thesis
    using tot loop cur slots skipped cnt skip syn full quiet fullU warned by simp
qed

subsection \<open>The alias branch and the unknown type\<close>

text \<open>
  An alias or array record whose size leaves a remainder ends layout synthesis with the
  failed assertion (or with the division by zero for an element count of zero), and the
  catalog is left as it was.
\<close>

lemma getCtype_alias_remainder:
  assumes "ctypes self dtypename = None" and "stringMatch dtypename = None"
    and "dtypes self dtypename = Some dtype"
    and "\<not> startswith (dt_name dtype) ''POINTER TO ''"
    and "dt_type dtype \<noteq> []" and "dt_subItems dtype = []"
    and "dt_size dtype mod prod_list (map snd (dt_array dtype)) \<noteq> 0"
  shows "getCtype (Suc depth) psz self dtypename size_hint
          = (Inl (if prod_list (map snd (dt_array dtype)) = 0 then ZeroDivisionError
                  else AssertionError), self)"
proof -
  have "synthesize (getCtype depth psz) self dtypename dtype
      = (Inl (if prod_list (map snd (dt_array dtype)) = 0 then ZeroDivisionError
              else AssertionError), self)"
    using assms by (simp add: synthesize_def arraysize_prod Let_def)
  then show ?thesis using assms by simp
qed

text \<open>
  \<open>getCtype\<close> returns \<^verbatim>\<open>None\<close> exactly for a name that is neither memoized, nor a
  string pattern, nor in the table, when no size is given; it then warns and stores
  nothing.
\<close>

lemma getCtype_unknown_iff:
  "fst (getCtype (Suc depth) psz self dtypename size_hint) = Inr None \<longleftrightarrow>
     ctypes self dtypename = None \<and> stringMatch dtypename = None
     \<and> dtypes self dtypename = None \<and> size_hint = None"
  by (auto simp: Let_def split: option.splits sum.splits prod.splits if_splits)

lemma getCtype_unknown_warns:
  "ctypes self dtypename = None \<Longrightarrow> stringMatch dtypename = None \<Longrightarrow>
   dtypes self dtypename = None \<Longrightarrow>
   getCtype (Suc depth) psz self dtypename None
     = (Inr None, self\<lparr>warnings := warnings self @ [UnknownTypeUnknownSize dtypename]\<rparr>)"
  by (simp add: warn_def)

text \<open>
  C5: for every alias/array type record (non-empty type reference, no sub-items) whose
  declared size is not an exact multiple of the product of its dimension element counts,
  layout synthesis does not throw but falls back to an Opaque layout of the declared
  size. The alias branch asserts that the division leaves no remainder and nothing
  catches the assertion: for the record \<^verbatim>\<open>A\<close> of 5 bytes with two \<^verbatim>\<open>BYTE\<close>
  elements \<open>getCtype\<close> raises \<^verbatim>\<open>AssertionError\<close>, stores no layout and gives no warning,
  where the same function answers a layout of the wrong size (record \<^verbatim>\<open>B\<close>, two
  \<^verbatim>\<open>INT\<close> elements declared as 6 bytes) with a warning and a \<open>Dummy\<close> of the declared
  size.
\<close>

theorem getCtype_alias_not_divisible_raises:
  "fst (getCtype 5 8 (new_catalog [''A'' \<mapsto> type_record ''A'' ''BYTE'' 5 0 [(0, 2)] []])
          ''A'' None) = Inl AssertionError
   \<and> ctypes (snd (getCtype 5 8
                    (new_catalog [''A'' \<mapsto> type_record ''A'' ''BYTE'' 5 0 [(0, 2)] []])
                    ''A'' None)) ''A'' = None
   \<and> warnings (snd (getCtype 5 8
                      (new_catalog [''A'' \<mapsto> type_record ''A'' ''BYTE'' 5 0 [(0, 2)] []])
                      ''A'' None)) = []
   \<and> fst (getCtype 5 8 (new_catalog [''B'' \<mapsto> type_record ''B'' ''INT'' 6 0 [(0, 2)] []])
            ''B'' None) = Inr (Some (Dummy 6))
   \<and> warnings (snd (getCtype 5 8
                      (new_catalog [''B'' \<mapsto> type_record ''B'' ''INT'' 6 0 [(0, 2)] []])
                      ''B'' None)) = [SizeMismatch ''B'' 6]"
  by code_simp

section \<open>Properties of Variable navigation\<close>

text \<open>
  The loop over the dimensions is Horner's scheme for the row-major linear index: started
  from \<open>(li, ni)\<close> with every component in range, it ends with
  \<open>li * N + \<Sum>k. (idx\<^sub>k - lower\<^sub>k) * (product of the counts after k)\<close> and \<open>ni * N\<close>, where
  \<open>N\<close> is the product of all counts.
\<close>

lemma index_loop_row_major:
  "length idx = length dims \<Longrightarrow>
   \<forall>k<length dims. fst (dims ! k) \<le> idx ! k \<and> idx ! k < fst (dims ! k) + int (snd (dims ! k)) \<Longrightarrow>
   index_loop (zip idx dims) li ni =
     Inr (li * int (prod_list (map snd dims))
            + (\<Sum>k<length dims. (idx ! k - fst (dims ! k))
                                   * int (prod_list (map snd (drop (Suc k) dims)))),
          ni * prod_list (map snd dims))"
proof (induction dims arbitrary: idx li ni)
  case Nil
  then show ?case by simp
next
  case (Cons dim dims)
  obtain lower elements where dim: "dim = (lower, elements)" by (cases dim)
  obtain i rest where idx: "idx = i # rest"
    using Cons.prems(1) by (cases idx) auto
  have len: "length rest = length dims" using Cons.prems(1) idx by simp
  have head: "lower \<le> i \<and> i < lower + int elements"
    using Cons.prems(2) idx dim by (auto dest: spec [of _ 0])
  have tail: "\<forall>k<length dims. fst (dims ! k) \<le> rest ! k
                \<and> rest ! k < fst (dims ! k) + int (snd (dims ! k))"
  proof (intro allI impI)
    fix k assume "k < length dims"
    then have "Suc k < length (dim # dims)" by simp
    from Cons.prems(2)[rule_format, OF this]
    show "fst (dims ! k) \<le> rest ! k \<and> rest ! k < fst (dims ! k) + int (snd (dims ! k))"
      using idx by simp
  qed
  have ih: "index_loop (zip rest dims) (li * int elements + (i - lower)) (ni * elements) =
     Inr ((li * int elements + (i - lower)) * int (prod_list (map snd dims))
            + (\<Sum>k<length dims. (rest ! k - fst (dims ! k))
                                   * int (prod_list (map snd (drop (Suc k) dims)))),
          (ni * elements) * prod_list (map snd dims))"
    by (rule Cons.IH [OF len tail])
  have sum: "(\<Sum>k<length (dim # dims). (idx ! k - fst ((dim # dims) ! k))
                 * int (prod_list (map snd (drop (Suc k) (dim # dims)))))
      = (i - lower) * int (prod_list (map snd dims))
        + (\<Sum>k<length dims. (rest ! k - fst (dims ! k))
                               * int (prod_list (map snd (drop (Suc k) dims))))"
    unfolding length_Cons by (subst sum.lessThan_Suc_shift) (simp add: idx dim)
  show ?case
    unfolding sum using head ih by (simp add: idx dim algebra_simps)
qed

lemma index_loop_error: "index_loop xs li ni = Inl e \<Longrightarrow> e = IndexError"
  by (induction xs li ni rule: index_loop.induct) (auto split: if_splits)

lemma index_loop_fails_iff:
  "length idx = length dims \<Longrightarrow>
   (\<exists>e. index_loop (zip idx dims) li ni = Inl e) \<longleftrightarrow>
   (\<exists>k<length idx. idx ! k < fst (dims ! k) \<or> idx ! k \<ge> fst (dims ! k) + int (snd (dims ! k)))"
proof (induction dims arbitrary: idx li ni)
  case Nil
  then show ?case by simp
next
  case (Cons dim dims)
  obtain lower elements where dim: "dim = (lower, elements)" by (cases dim)
  obtain i rest where idx: "idx = i # rest"
    using Cons.prems(1) by (cases idx) auto
  have len: "length rest = length dims" using Cons.prems(1) idx by simp
  show ?case
    using Cons.IH [OF len] by (auto simp: idx dim less_Suc_eq_0_disj)
qed


subsection \<open>The constructor of a child\<close>

text \<open>A variable the constructor returns has the name, the symbol and the offset given.\<close>

lemma Variable_init_returned:
  "Variable_init depth psz vardef name symbol datatype offset = (Inr child, vardef') \<Longrightarrow>
   var_name child = name \<and> var_symbol child = symbol
   \<and> var_offset child = (case offset of None \<Rightarrow> 0 | Some off \<Rightarrow> off)"
  unfolding Variable_init_def
  by (auto split: typeref.splits option.splits if_splits prod.splits sum.splits)

text \<open>The constructor raises only what layout synthesis raises.\<close>

lemma Variable_init_errors:
  assumes "fst (Variable_init depth psz vardef name symbol datatype offset) = Inl e"
  shows "e \<in> {RecursionError, ZeroDivisionError, AssertionError, TypeError}"
proof -
  have g: "getCtype depth psz st n z = (Inl e', st') \<Longrightarrow>
           e' \<in> {RecursionError, ZeroDivisionError, AssertionError, TypeError}" for st n z e' st'
    using getCtype_errors [of depth psz st n z e'] by simp
  show ?thesis
    using assms unfolding Variable_init_def
    by (auto split: typeref.splits option.splits if_splits prod.splits sum.splits dest: g)
qed

text \<open>
  The constructor returns, and leaves the catalog as it was, when the type name needs no
  synthesis: a basic type that the table does not redefine, an alias of a basic type, or
  a record whose layout is in the memo already.
\<close>

lemma Variable_init_resolved:
  assumes depth: "0 < depth"
    and res: "case dtypes vardef s of
                None \<Rightarrow> basictypes s \<noteq> None
              | Some d' \<Rightarrow> if is_alias d' then basictypes (dt_type d') \<noteq> None
                          else ctypes vardef (dt_name d') \<noteq> None"
  shows "\<exists>child. Variable_init depth psz vardef name symbol (ByName s) offset = (Inr child, vardef)
           \<and> var_name child = name \<and> var_symbol child = symbol
           \<and> var_offset child = (case offset of None \<Rightarrow> 0 | Some off \<Rightarrow> off)"
proof -
  obtain n where n: "depth = Suc n" using depth by (cases depth) auto
  show ?thesis
    using res unfolding Variable_init_def n
    by (auto split: option.splits if_splits)
qed

lemma Variable_init_memoized:
  assumes depth: "0 < depth"
    and memo: "ctypes vardef (dt_name t) \<noteq> None"
  shows "\<exists>child. Variable_init depth psz vardef name symbol (ByEntry t) offset = (Inr child, vardef)
           \<and> var_name child = name \<and> var_symbol child = symbol
           \<and> var_offset child = (case offset of None \<Rightarrow> 0 | Some off \<Rightarrow> off)"
proof -
  obtain n where n: "depth = Suc n" using depth by (cases depth) auto
  show ?thesis
    using memo unfolding Variable_init_def n
    by (auto split: option.splits if_splits)
qed

subsection \<open>Indexing\<close>

text \<open>
  For an index tuple within the bounds of a record whose size divides evenly,
  \<^verbatim>\<open>__getitem__\<close> is the constructor of the child, called with the row-major offset.
\<close>

lemma Variable_getitem_in_range:
  assumes dt: "var_datatype self = Some d"
    and dims: "dt_array d \<noteq> []"
    and ty: "dt_type d \<noteq> []"
    and len: "length idx = length (dt_array d)"
    and rng: "\<forall>k<length (dt_array d). fst (dt_array d ! k) \<le> idx ! k
                \<and> idx ! k < fst (dt_array d ! k) + int (snd (dt_array d ! k))"
    and dvd: "dt_size d mod prod_list (map snd (dt_array d)) = 0"
  shows "Variable_getitem depth psz vardef self idx =
           Variable_init depth psz vardef (idxStr idx) (var_symbol self) (ByName (dt_type d))
             (Some (var_offset self
               + int (dt_size d div prod_list (map snd (dt_array d)))
                 * (\<Sum>k<length (dt_array d).
                      (idx ! k - fst (dt_array d ! k))
                      * int (prod_list (map snd (drop (Suc k) (dt_array d)))))))"
proof -
  have loop: "index_loop (zip idx (dt_array d)) 0 (Suc 0) =
     Inr ((\<Sum>k<length (dt_array d). (idx ! k - fst (dt_array d ! k))
              * int (prod_list (map snd (drop (Suc k) (dt_array d))))),
          prod_list (map snd (dt_array d)))"
    using index_loop_row_major [OF len rng, of 0 "Suc 0"] by simp
  have pos: "prod_list (map snd (dt_array d)) \<noteq> 0"
  proof
    assume "prod_list (map snd (dt_array d)) = 0"
    then have "0 \<in> set (map snd (dt_array d))" by (simp add: prod_list_zero_iff)
    then obtain k where k: "k < length (dt_array d)" "snd (dt_array d ! k) = 0"
      by (auto simp: in_set_conv_nth)
    from rng[rule_format, OF k(1)] k(2) show False by auto
  qed
  show ?thesis
    using dt dims ty len dvd pos
    by (simp add: Variable_getitem_def loop Let_def mult.commute)
qed

text \<open>
  Conversely, whenever \<^verbatim>\<open>__getitem__\<close> returns a child, the variable is an array with
  an element type, the index tuple is within the bounds, the size divides evenly, and the
  child has the index string as its name and the row-major offset.
\<close>

lemma Variable_getitem_returned:
  assumes ret: "Variable_getitem depth psz vardef self idx = (Inr child, vardef')"
  shows "\<exists>d. var_datatype self = Some d \<and> dt_array d \<noteq> [] \<and> dt_type d \<noteq> []
           \<and> length idx = length (dt_array d)
           \<and> (\<forall>k<length (dt_array d). fst (dt_array d ! k) \<le> idx ! k
                \<and> idx ! k < fst (dt_array d ! k) + int (snd (dt_array d ! k)))
           \<and> dt_size d mod prod_list (map snd (dt_array d)) = 0
           \<and> var_name child = idxStr idx \<and> var_symbol child = var_symbol self
           \<and> var_offset child = var_offset self
               + int (dt_size d div prod_list (map snd (dt_array d)))
                 * (\<Sum>k<length (dt_array d).
                      (idx ! k - fst (dt_array d ! k))
                      * int (prod_list (map snd (drop (Suc k) (dt_array d)))))"
proof -
  obtain d where dt: "var_datatype self = Some d"
    using ret by (cases "var_datatype self") (auto simp: Variable_getitem_def)
  have dims: "dt_array d \<noteq> []"
    using ret dt by (auto simp: Variable_getitem_def split: if_splits)
  have len: "length idx = length (dt_array d)"
    using ret dt by (auto simp: Variable_getitem_def split: if_splits)
  obtain li ni where loop: "index_loop (zip idx (dt_array d)) 0 1 = Inr (li, ni)"
    using ret dt dims len
    by (cases "index_loop (zip idx (dt_array d)) 0 1") (auto simp: Variable_getitem_def)
  have "\<not> (\<exists>k<length idx. idx ! k < fst (dt_array d ! k)
               \<or> idx ! k \<ge> fst (dt_array d ! k) + int (snd (dt_array d ! k)))"
    using index_loop_fails_iff [OF len, of 0 1] loop by auto
  then have rng: "\<forall>k<length (dt_array d). fst (dt_array d ! k) \<le> idx ! k
                \<and> idx ! k < fst (dt_array d ! k) + int (snd (dt_array d ! k))"
    using len by (metis not_le_imp_less not_less)
  have ni: "ni = prod_list (map snd (dt_array d))"
    using index_loop_row_major [OF len rng, of 0 1] loop by simp
  have ty: "dt_type d \<noteq> []"
    using ret dt dims len loop by (auto simp: Variable_getitem_def Let_def split: if_splits)
  have dvd: "dt_size d mod prod_list (map snd (dt_array d)) = 0"
    using ret dt dims len loop ni by (auto simp: Variable_getitem_def Let_def split: if_splits)
  from Variable_getitem_in_range [OF dt dims ty len rng dvd, of depth psz vardef] ret
  have "Variable_init depth psz vardef (idxStr idx) (var_symbol self) (ByName (dt_type d))
             (Some (var_offset self
               + int (dt_size d div prod_list (map snd (dt_array d)))
                 * (\<Sum>k<length (dt_array d).
                      (idx ! k - fst (dt_array d ! k))
                      * int (prod_list (map snd (drop (Suc k) (dt_array d))))))) = (Inr child, vardef')"
    by simp
  from Variable_init_returned [OF this]
  show ?thesis using dt dims ty len rng dvd by simp
qed

text \<open>\<^verbatim>\<open>__getitem__\<close> raises \<^verbatim>\<open>IndexError\<close> for a wrong index only.\<close>

lemma Variable_getitem_IndexError:
  assumes dt: "var_datatype self = Some d"
    and dims: "dt_array d \<noteq> []"
    and ty: "dt_type d \<noteq> []"
  shows "fst (Variable_getitem depth psz vardef self idx) = Inl IndexError \<longleftrightarrow>
           (length idx \<noteq> length (dt_array d)
            \<or> (\<exists>k<length idx. idx ! k < fst (dt_array d ! k)
                    \<or> idx ! k \<ge> fst (dt_array d ! k) + int (snd (dt_array d ! k))))"
proof (cases "length idx = length (dt_array d)")
  case False
  then show ?thesis using dt dims by (simp add: Variable_getitem_def)
next
  case True
  show ?thesis
  proof (cases "index_loop (zip idx (dt_array d)) 0 1")
    case (Inl e)
    then have e: "e = IndexError" by (rule index_loop_error)
    have "\<exists>k<length idx. idx ! k < fst (dt_array d ! k)
                  \<or> idx ! k \<ge> fst (dt_array d ! k) + int (snd (dt_array d ! k))"
      using index_loop_fails_iff [OF True, of 0 1] Inl by blast
    then show ?thesis using dt dims True Inl e by (simp add: Variable_getitem_def)
  next
    case (Inr r)
    have no: "\<not> (\<exists>k<length idx. idx ! k < fst (dt_array d ! k)
                  \<or> idx ! k \<ge> fst (dt_array d ! k) + int (snd (dt_array d ! k)))"
      using index_loop_fails_iff [OF True, of 0 1] Inr by auto
    have ctor: "fst (Variable_init depth psz vardef name symbol tref offset) \<noteq> Inl IndexError"
      for name symbol tref offset
      using Variable_init_errors [of depth psz vardef name symbol tref offset IndexError]
      by auto
    show ?thesis using dt dims ty True Inr no ctor
      by (cases r) (simp add: Variable_getitem_def Let_def)
  qed
qed




text \<open>
  C7: indexed access on an array Variable with a non-empty element type reference raises
  \<^verbatim>\<open>IndexError\<close> if and only if the length of the index tuple differs from the number
  of declared dimensions or some component \<open>i\<^sub>d\<close> lies outside \<open>[l\<^sub>d, l\<^sub>d + n\<^sub>d)\<close>. For
  the dimensions \<open>[(-2, 4)]\<close> and declared size 4 (one byte per element), indexing at
  \<open>-2\<close> is the constructor of the child at the parent's offset plus 0 and indexing at
  \<open>1\<close> the constructor of the child at the parent's offset plus 3, so that every child
  returned is at that offset, and a child is returned when the element type needs no
  synthesis, as a basic type such as \<open>BYTE\<close> does not; indexing at \<open>2\<close> or \<open>-3\<close> raises
  \<^verbatim>\<open>IndexError\<close>.
\<close>

theorem Variable_getitem_IndexError_iff:
  assumes dt: "var_datatype self = Some d"
    and dims: "dt_array d \<noteq> []"
    and ty: "dt_type d \<noteq> []"
  shows "(fst (Variable_getitem depth psz vardef self idx) = Inl IndexError \<longleftrightarrow>
           (length idx \<noteq> length (dt_array d)
            \<or> (\<exists>k<length idx. idx ! k < fst (dt_array d ! k)
                    \<or> idx ! k \<ge> fst (dt_array d ! k) + int (snd (dt_array d ! k)))))
       \<and> (dt_array d = [(- 2, 4)] \<and> dt_size d = 4 \<longrightarrow>
            Variable_getitem depth psz vardef self [- 2] =
              Variable_init depth psz vardef (idxStr [- 2]) (var_symbol self)
                (ByName (dt_type d)) (Some (var_offset self + 0))
          \<and> Variable_getitem depth psz vardef self [1] =
              Variable_init depth psz vardef (idxStr [1]) (var_symbol self)
                (ByName (dt_type d)) (Some (var_offset self + 3))
          \<and> (\<forall>child vardef'.
               Variable_getitem depth psz vardef self [- 2] = (Inr child, vardef') \<longrightarrow>
               var_offset child = var_offset self + 0)
          \<and> (\<forall>child vardef'.
               Variable_getitem depth psz vardef self [1] = (Inr child, vardef') \<longrightarrow>
               var_offset child = var_offset self + 3)
          \<and> (0 < depth \<and> (case dtypes vardef (dt_type d) of
                None \<Rightarrow> basictypes (dt_type d) \<noteq> None
              | Some d' \<Rightarrow> if is_alias d' then basictypes (dt_type d') \<noteq> None
                          else ctypes vardef (dt_name d') \<noteq> None) \<longrightarrow>
               (\<exists>child. Variable_getitem depth psz vardef self [- 2] = (Inr child, vardef)
                  \<and> var_offset child = var_offset self + 0)
             \<and> (\<exists>child. Variable_getitem depth psz vardef self [1] = (Inr child, vardef)
                  \<and> var_offset child = var_offset self + 3))
          \<and> fst (Variable_getitem depth psz vardef self [2]) = Inl IndexError
          \<and> fst (Variable_getitem depth psz vardef self [- 3]) = Inl IndexError)"
proof (intro conjI impI)
  show "fst (Variable_getitem depth psz vardef self idx) = Inl IndexError \<longleftrightarrow>
           (length idx \<noteq> length (dt_array d)
            \<or> (\<exists>k<length idx. idx ! k < fst (dt_array d ! k)
                    \<or> idx ! k \<ge> fst (dt_array d ! k) + int (snd (dt_array d ! k))))"
    by (rule Variable_getitem_IndexError [OF dt dims ty])
next
  assume a: "dt_array d = [(- 2, 4)] \<and> dt_size d = 4"
  show lo: "Variable_getitem depth psz vardef self [- 2] =
              Variable_init depth psz vardef (idxStr [- 2]) (var_symbol self)
                (ByName (dt_type d)) (Some (var_offset self + 0))"
    using dt ty a by (simp add: Variable_getitem_def)
  show hi: "Variable_getitem depth psz vardef self [1] =
              Variable_init depth psz vardef (idxStr [1]) (var_symbol self)
                (ByName (dt_type d)) (Some (var_offset self + 3))"
    using dt ty a by (simp add: Variable_getitem_def)
  show "\<forall>child vardef'.
               Variable_getitem depth psz vardef self [- 2] = (Inr child, vardef') \<longrightarrow>
               var_offset child = var_offset self + 0"
    unfolding lo by (auto dest: Variable_init_returned)
  show "\<forall>child vardef'.
               Variable_getitem depth psz vardef self [1] = (Inr child, vardef') \<longrightarrow>
               var_offset child = var_offset self + 3"
    unfolding hi by (auto dest: Variable_init_returned)
  show "fst (Variable_getitem depth psz vardef self [2]) = Inl IndexError"
    using dt a by (simp add: Variable_getitem_def)
  show "fst (Variable_getitem depth psz vardef self [- 3]) = Inl IndexError"
    using dt a by (simp add: Variable_getitem_def)
next
  assume a: "dt_array d = [(- 2, 4)] \<and> dt_size d = 4"
  assume c: "0 < depth \<and> (case dtypes vardef (dt_type d) of
                None \<Rightarrow> basictypes (dt_type d) \<noteq> None
              | Some d' \<Rightarrow> if is_alias d' then basictypes (dt_type d') \<noteq> None
                          else ctypes vardef (dt_name d') \<noteq> None)"
  then have depth: "0 < depth" and res: "(case dtypes vardef (dt_type d) of
                None \<Rightarrow> basictypes (dt_type d) \<noteq> None
              | Some d' \<Rightarrow> if is_alias d' then basictypes (dt_type d') \<noteq> None
                          else ctypes vardef (dt_name d') \<noteq> None)" by simp_all
  have lo: "Variable_getitem depth psz vardef self [- 2] =
              Variable_init depth psz vardef (idxStr [- 2]) (var_symbol self)
                (ByName (dt_type d)) (Some (var_offset self + 0))"
    using dt ty a by (simp add: Variable_getitem_def)
  from Variable_init_resolved [OF depth res]
  show "\<exists>child. Variable_getitem depth psz vardef self [- 2] = (Inr child, vardef)
                  \<and> var_offset child = var_offset self + 0"
    unfolding lo by fastforce
next
  assume a: "dt_array d = [(- 2, 4)] \<and> dt_size d = 4"
  assume c: "0 < depth \<and> (case dtypes vardef (dt_type d) of
                None \<Rightarrow> basictypes (dt_type d) \<noteq> None
              | Some d' \<Rightarrow> if is_alias d' then basictypes (dt_type d') \<noteq> None
                          else ctypes vardef (dt_name d') \<noteq> None)"
  then have depth: "0 < depth" and res: "(case dtypes vardef (dt_type d) of
                None \<Rightarrow> basictypes (dt_type d) \<noteq> None
              | Some d' \<Rightarrow> if is_alias d' then basictypes (dt_type d') \<noteq> None
                          else ctypes vardef (dt_name d') \<noteq> None)" by simp_all
  have hi: "Variable_getitem depth psz vardef self [1] =
              Variable_init depth psz vardef (idxStr [1]) (var_symbol self)
                (ByName (dt_type d)) (Some (var_offset self + 3))"
    using dt ty a by (simp add: Variable_getitem_def)
  from Variable_init_resolved [OF depth res]
  show "\<exists>child. Variable_getitem depth psz vardef self [1] = (Inr child, vardef)
                  \<and> var_offset child = var_offset self + 3"
    unfolding hi by fastforce
qed

theorem Variable_getitem_IndexError_iff_witness:
  "var_datatype \<lparr> var_name = ''b'', var_symbol = symbol_entry ''b'' ''BYTES'' 4,
          var_datatype = Some (type_record ''BYTES'' ''BYTE'' 4 0 [(- 2, 4)] []),
          var_ctype = None, var_offset = 0 \<rparr> = Some (type_record ''BYTES'' ''BYTE'' 4 0 [(- 2, 4)] [])
   \<and> dt_array (type_record ''BYTES'' ''BYTE'' 4 0 [(- 2, 4)] []) \<noteq> []
   \<and> dt_type (type_record ''BYTES'' ''BYTE'' 4 0 [(- 2, 4)] []) \<noteq> []
   \<and> dt_array (type_record ''BYTES'' ''BYTE'' 4 0 [(- 2, 4)] []) = [(- 2, 4)]
   \<and> dt_size (type_record ''BYTES'' ''BYTE'' 4 0 [(- 2, 4)] []) = 4
   \<and> dtypes (new_catalog Map.empty) ''BYTE'' = None
   \<and> basictypes ''BYTE'' \<noteq> None
   \<and> fst (Variable_getitem 5 8 (new_catalog Map.empty)
        \<lparr> var_name = ''b'', var_symbol = symbol_entry ''b'' ''BYTES'' 4,
          var_datatype = Some (type_record ''BYTES'' ''BYTE'' 4 0 [(- 2, 4)] []),
          var_ctype = None, var_offset = 0 \<rparr> [0, 0]) = Inl IndexError
   \<and> (\<exists>child. Variable_getitem 5 8 (new_catalog Map.empty)
        \<lparr> var_name = ''b'', var_symbol = symbol_entry ''b'' ''BYTES'' 4,
          var_datatype = Some (type_record ''BYTES'' ''BYTE'' 4 0 [(- 2, 4)] []),
          var_ctype = None, var_offset = 0 \<rparr> [- 2]
                 = (Inr child, new_catalog Map.empty) \<and> var_offset child = 0)
   \<and> (\<exists>child. Variable_getitem 5 8 (new_catalog Map.empty)
        \<lparr> var_name = ''b'', var_symbol = symbol_entry ''b'' ''BYTES'' 4,
          var_datatype = Some (type_record ''BYTES'' ''BYTE'' 4 0 [(- 2, 4)] []),
          var_ctype = None, var_offset = 0 \<rparr> [1]
                 = (Inr child, new_catalog Map.empty) \<and> var_offset child = 3)
   \<and> fst (Variable_getitem 5 8 (new_catalog Map.empty)
        \<lparr> var_name = ''b'', var_symbol = symbol_entry ''b'' ''BYTES'' 4,
          var_datatype = Some (type_record ''BYTES'' ''BYTE'' 4 0 [(- 2, 4)] []),
          var_ctype = None, var_offset = 0 \<rparr> [2]) = Inl IndexError
   \<and> fst (Variable_getitem 5 8 (new_catalog Map.empty)
        \<lparr> var_name = ''b'', var_symbol = symbol_entry ''b'' ''BYTES'' 4,
          var_datatype = Some (type_record ''BYTES'' ''BYTE'' 4 0 [(- 2, 4)] []),
          var_ctype = None, var_offset = 0 \<rparr> [- 3]) = Inl IndexError"
proof -
  let ?b = "\<lparr> var_name = ''b'', var_symbol = symbol_entry ''b'' ''BYTES'' 4,
          var_datatype = Some (type_record ''BYTES'' ''BYTE'' 4 0 [(- 2, 4)] []),
          var_ctype = None, var_offset = 0 \<rparr>"
  let ?d = "type_record ''BYTES'' ''BYTE'' 4 0 [(- 2, 4)] []"
  let ?vd = "new_catalog Map.empty"
  have basic: "basictypes ''BYTE'' \<noteq> None" by (simp add: basictypes_def)
  have dt: "var_datatype ?b = Some ?d" by simp
  have dims: "dt_array ?d \<noteq> []" by simp
  have ty: "dt_type ?d \<noteq> []" by simp
  have a: "dt_array ?d = [(- 2, 4)] \<and> dt_size ?d = 4" by simp
  have h: "0 < (5 :: nat)
           \<and> (case dtypes ?vd (dt_type ?d) of
                None \<Rightarrow> basictypes (dt_type ?d) \<noteq> None
              | Some d' \<Rightarrow> if is_alias d' then basictypes (dt_type d') \<noteq> None
                          else ctypes ?vd (dt_name d') \<noteq> None)"
    using basic by (simp add: new_catalog_def)
  note inst = Variable_getitem_IndexError_iff [of ?b ?d 5 8 ?vd "[0, 0]", OF dt dims ty]
  note scen = inst [THEN conjunct2, THEN mp, OF a]
  note rest = scen [THEN conjunct2, THEN conjunct2, THEN conjunct2, THEN conjunct2]
  note ret = rest [THEN conjunct1, THEN mp, OF h]
  note err = rest [THEN conjunct2]
  have wrong: "fst (Variable_getitem 5 8 ?vd ?b [0, 0]) = Inl IndexError"
    using inst [THEN conjunct1] by simp
  show ?thesis
    using wrong ret err basic by (simp add: new_catalog_def)
qed

section \<open>Properties of Variable iteration\<close>

lemma Variable_iter_no_datatype:
  "var_datatype self = None \<Longrightarrow>
   Variable_iter depth psz vardef self = (([], Raised TypeError), vardef)"
  by (simp add: Variable_iter_def)

text \<open>
  What the generator over an array has yielded when it ends: a pair for each index tuple
  of a prefix of the tuples, in their order, named by the index string and holding the
  child that \<^verbatim>\<open>self[idx]\<close> returned; the prefix is the whole list when the generator
  ends normally.
\<close>

lemma iter_items_yields:
  "iter_items depth psz vardef self idxs = ((ys, out), vardef') \<Longrightarrow>
   length ys \<le> length idxs
   \<and> (out = Returned \<longrightarrow> length ys = length idxs)
   \<and> (\<forall>j<length ys. fst (ys ! j) = idxStr (idxs ! j)
          \<and> (\<exists>vd vd'. Variable_getitem depth psz vd self (idxs ! j) = (Inr (snd (ys ! j)), vd')))"
proof (induction idxs arbitrary: vardef ys out vardef')
  case Nil
  then show ?case by simp
next
  case (Cons idx rest)
  obtain r vd1 where g: "Variable_getitem depth psz vardef self idx = (r, vd1)"
    by (cases "Variable_getitem depth psz vardef self idx")
  show ?case
  proof (cases r)
    case (Inl e)
    then show ?thesis using Cons.prems g by auto
  next
    case (Inr v)
    obtain ys' out' vd2 where it: "iter_items depth psz vd1 self rest = ((ys', out'), vd2)"
      by (cases "iter_items depth psz vd1 self rest") auto
    have ys: "ys = (idxStr idx, v) # ys'" and out: "out = out'"
      using Cons.prems g Inr it by simp_all
    from Cons.IH [OF it] have ih:
      "length ys' \<le> length rest" "out' = Returned \<longrightarrow> length ys' = length rest"
      "\<forall>j<length ys'. fst (ys' ! j) = idxStr (rest ! j)
          \<and> (\<exists>vd vd'. Variable_getitem depth psz vd self (rest ! j) = (Inr (snd (ys' ! j)), vd'))"
      by simp_all
    have "\<forall>j<length ys. fst (ys ! j) = idxStr ((idx # rest) ! j)
          \<and> (\<exists>vd vd'. Variable_getitem depth psz vd self ((idx # rest) ! j)
                         = (Inr (snd (ys ! j)), vd'))"
    proof (intro allI impI)
      fix j assume j: "j < length ys"
      show "fst (ys ! j) = idxStr ((idx # rest) ! j)
          \<and> (\<exists>vd vd'. Variable_getitem depth psz vd self ((idx # rest) ! j)
                         = (Inr (snd (ys ! j)), vd'))"
      proof (cases j)
        case 0
        then show ?thesis using ys g Inr by auto
      next
        case (Suc i)
        then have "i < length ys'" using j ys by simp
        from ih(3) [rule_format, OF this] show ?thesis using Suc ys by simp
      qed
    qed
    then show ?thesis using ih(1,2) ys out by simp
  qed
qed

text \<open>
  Over an array, the pairs the generator has yielded are named by the coordinate
  combinations in the order of \<^verbatim>\<open>itertools.product\<close> (row-major, the last dimension
  fastest), and each child is at the row-major offset of its coordinates. When the
  generator ends normally, there is a pair for every combination.
\<close>

lemma Variable_iter_array:
  assumes dt: "var_datatype self = Some d"
    and dims: "dt_array d \<noteq> []"
    and it: "Variable_iter depth psz vardef self = ((ys, out), vardef')"
  shows "map fst ys = map idxStr (take (length ys) (product_lists (map (\<lambda>(lower, elements). [lower..lower + int elements - 1])
                                  (dt_array d))))
       \<and> (out = Returned \<longrightarrow> length ys = length (product_lists (map (\<lambda>(lower, elements). [lower..lower + int elements - 1])
                                  (dt_array d))))
       \<and> (\<forall>j<length ys. var_offset (snd (ys ! j)) = var_offset self
               + int (dt_size d div prod_list (map snd (dt_array d)))
                 * (\<Sum>k<length (dt_array d).
                      ((product_lists (map (\<lambda>(lower, elements). [lower..lower + int elements - 1])
                                  (dt_array d)) ! j) ! k - fst (dt_array d ! k))
                      * int (prod_list (map snd (drop (Suc k) (dt_array d))))))"
proof -
  let ?idxs = "product_lists (map (\<lambda>(lower, elements). [lower..lower + int elements - 1])
                                  (dt_array d))"
  have it': "iter_items depth psz vardef self ?idxs = ((ys, out), vardef')"
    using it dt dims by (simp add: Variable_iter_def)
  from iter_items_yields [OF it'] have
    len: "length ys \<le> length ?idxs"
    and all: "out = Returned \<longrightarrow> length ys = length ?idxs"
    and each: "\<forall>j<length ys. fst (ys ! j) = idxStr (?idxs ! j)
          \<and> (\<exists>vd vd'. Variable_getitem depth psz vd self (?idxs ! j) = (Inr (snd (ys ! j)), vd'))"
    by simp_all
  have names: "map fst ys = map idxStr (take (length ys) ?idxs)"
    using len each by (intro nth_equalityI) simp_all
  have offs: "\<forall>j<length ys. var_offset (snd (ys ! j)) = var_offset self
               + int (dt_size d div prod_list (map snd (dt_array d)))
                 * (\<Sum>k<length (dt_array d).
                      ((product_lists (map (\<lambda>(lower, elements). [lower..lower + int elements - 1])
                                  (dt_array d)) ! j) ! k - fst (dt_array d ! k))
                      * int (prod_list (map snd (drop (Suc k) (dt_array d)))))"
  proof (intro allI impI)
    fix j assume "j < length ys"
    with each obtain vd vd' where
      "Variable_getitem depth psz vd self (?idxs ! j) = (Inr (snd (ys ! j)), vd')"
      by blast
    from Variable_getitem_returned [OF this] dt
    show "var_offset (snd (ys ! j)) = var_offset self
               + int (dt_size d div prod_list (map snd (dt_array d)))
                 * (\<Sum>k<length (dt_array d).
                      ((product_lists (map (\<lambda>(lower, elements). [lower..lower + int elements - 1])
                                  (dt_array d)) ! j) ! k - fst (dt_array d ! k))
                      * int (prod_list (map snd (drop (Suc k) (dt_array d)))))"
      by auto
  qed
  show ?thesis using names all offs by blast
qed

lemma iter_items_resolved:
  "\<forall>idx\<in>set idxs. \<exists>child. Variable_getitem depth psz vardef self idx = (Inr child, vardef) \<Longrightarrow>
   \<exists>ys. iter_items depth psz vardef self idxs = ((ys, Returned), vardef)"
proof (induction idxs)
  case Nil
  then show ?case by simp
next
  case (Cons idx rest)
  then obtain child where "Variable_getitem depth psz vardef self idx = (Inr child, vardef)"
    by auto
  moreover obtain ys where "iter_items depth psz vardef self rest = ((ys, Returned), vardef)"
    using Cons by auto
  ultimately show ?case by simp
qed

text \<open>
  When the size divides evenly and the element type needs no synthesis, the generator
  over an array ends normally, leaves the catalog as it was, and has yielded a pair for
  every coordinate combination.
\<close>

lemma Variable_iter_array_resolved:
  assumes dt: "var_datatype self = Some d"
    and dims: "dt_array d \<noteq> []"
    and ty: "dt_type d \<noteq> []"
    and dvd: "dt_size d mod prod_list (map snd (dt_array d)) = 0"
    and depth: "0 < depth"
    and res: "(case dtypes vardef (dt_type d) of
                None \<Rightarrow> basictypes (dt_type d) \<noteq> None
              | Some d' \<Rightarrow> if is_alias d' then basictypes (dt_type d') \<noteq> None
                          else ctypes vardef (dt_name d') \<noteq> None)"
  shows "\<exists>ys. Variable_iter depth psz vardef self = ((ys, Returned), vardef)
           \<and> map fst ys = map idxStr (product_lists (map (\<lambda>(lower, elements). [lower..lower + int elements - 1])
                                  (dt_array d)))
           \<and> (\<forall>j<length ys. var_offset (snd (ys ! j)) = var_offset self
               + int (dt_size d div prod_list (map snd (dt_array d)))
                 * (\<Sum>k<length (dt_array d).
                      ((product_lists (map (\<lambda>(lower, elements). [lower..lower + int elements - 1])
                                  (dt_array d)) ! j) ! k - fst (dt_array d ! k))
                      * int (prod_list (map snd (drop (Suc k) (dt_array d))))))"
proof -
  let ?idxs = "product_lists (map (\<lambda>(lower, elements). [lower..lower + int elements - 1])
                                  (dt_array d))"
  have each: "\<forall>idx\<in>set ?idxs. \<exists>child.
                Variable_getitem depth psz vardef self idx = (Inr child, vardef)"
  proof
    fix idx assume "idx \<in> set ?idxs"
    then have l2: "list_all2 (\<lambda>x ys. x \<in> set ys) idx
                     (map (\<lambda>(lower, elements). [lower..lower + int elements - 1]) (dt_array d))"
      by (simp add: product_lists_set)
    then have len: "length idx = length (dt_array d)"
      by (auto dest: list_all2_lengthD)
    have rng: "\<forall>k<length (dt_array d). fst (dt_array d ! k) \<le> idx ! k
                \<and> idx ! k < fst (dt_array d ! k) + int (snd (dt_array d ! k))"
    proof (intro allI impI)
      fix k assume k: "k < length (dt_array d)"
      then have "idx ! k \<in> set (map (\<lambda>(lower, elements). [lower..lower + int elements - 1])
                                     (dt_array d) ! k)"
        using l2 len by (simp add: list_all2_conv_all_nth)
      then show "fst (dt_array d ! k) \<le> idx ! k
                \<and> idx ! k < fst (dt_array d ! k) + int (snd (dt_array d ! k))"
        using k by (cases "dt_array d ! k") auto
    qed
    from Variable_init_resolved [OF depth res]
    show "\<exists>child. Variable_getitem depth psz vardef self idx = (Inr child, vardef)"
      unfolding Variable_getitem_in_range [OF dt dims ty len rng dvd] by fastforce
  qed
  from iter_items_resolved [OF each] obtain ys where
    ys: "iter_items depth psz vardef self ?idxs = ((ys, Returned), vardef)" by blast
  then have it: "Variable_iter depth psz vardef self = ((ys, Returned), vardef)"
    using dt dims by (simp add: Variable_iter_def)
  from Variable_iter_array [OF dt dims it]
  show ?thesis using it by simp
qed

text \<open>The same for a structure: the members, in the order of the dictionary.\<close>

lemma Variable_getattr_returned:
  assumes "Variable_getattr depth psz vardef self name = (Inr child, vardef')"
  shows "\<exists>d t. var_datatype self = Some d \<and> map_of (dt_subItems d) name = Some t
           \<and> var_name child = name \<and> var_symbol child = var_symbol self
           \<and> var_offset child = int (dt_offs t) + var_offset self"
proof -
  obtain d where dt: "var_datatype self = Some d"
    using assms by (cases "var_datatype self") (auto simp: Variable_getattr_def)
  obtain t where t: "map_of (dt_subItems d) name = Some t"
    using assms dt by (cases "map_of (dt_subItems d) name") (auto simp: Variable_getattr_def)
  have "Variable_init depth psz vardef name (var_symbol self)
          (if dt_type t \<noteq> [] then ByName (dt_type t) else ByEntry t)
          (Some (int (dt_offs t) + var_offset self)) = (Inr child, vardef')"
    using assms dt t by (simp add: Variable_getattr_def)
  from Variable_init_returned [OF this] show ?thesis using dt t by simp
qed

lemma iter_subItems_yields:
  "iter_subItems depth psz vardef self names = ((ys, out), vardef') \<Longrightarrow>
   length ys \<le> length names
   \<and> (out = Returned \<longrightarrow> length ys = length names)
   \<and> (\<forall>j<length ys. fst (ys ! j) = names ! j
          \<and> (\<exists>vd vd'. Variable_getattr depth psz vd self (names ! j) = (Inr (snd (ys ! j)), vd')))"
proof (induction names arbitrary: vardef ys out vardef')
  case Nil
  then show ?case by simp
next
  case (Cons name rest)
  obtain r vd1 where g: "Variable_getattr depth psz vardef self name = (r, vd1)"
    by (cases "Variable_getattr depth psz vardef self name")
  show ?case
  proof (cases r)
    case (Inl e)
    then show ?thesis using Cons.prems g by auto
  next
    case (Inr v)
    obtain ys' out' vd2 where it: "iter_subItems depth psz vd1 self rest = ((ys', out'), vd2)"
      by (cases "iter_subItems depth psz vd1 self rest") auto
    have ys: "ys = (name, v) # ys'" and out: "out = out'"
      using Cons.prems g Inr it by simp_all
    from Cons.IH [OF it] have ih:
      "length ys' \<le> length rest" "out' = Returned \<longrightarrow> length ys' = length rest"
      "\<forall>j<length ys'. fst (ys' ! j) = rest ! j
          \<and> (\<exists>vd vd'. Variable_getattr depth psz vd self (rest ! j) = (Inr (snd (ys' ! j)), vd'))"
      by simp_all
    have "\<forall>j<length ys. fst (ys ! j) = (name # rest) ! j
          \<and> (\<exists>vd vd'. Variable_getattr depth psz vd self ((name # rest) ! j)
                         = (Inr (snd (ys ! j)), vd'))"
    proof (intro allI impI)
      fix j assume j: "j < length ys"
      show "fst (ys ! j) = (name # rest) ! j
          \<and> (\<exists>vd vd'. Variable_getattr depth psz vd self ((name # rest) ! j)
                         = (Inr (snd (ys ! j)), vd'))"
      proof (cases j)
        case 0
        then show ?thesis using ys g Inr by auto
      next
        case (Suc i)
        then have "i < length ys'" using j ys by simp
        from ih(3) [rule_format, OF this] show ?thesis using Suc ys by simp
      qed
    qed
    then show ?thesis using ih(1,2) ys out by simp
  qed
qed

text \<open>
  Over a structure (sub-items, no dimensions), the pairs the generator has yielded are
  named by the keys of the dictionary in their order, and each child is at the member's
  offset from the parent. When the generator ends normally, there is a pair for every
  member.
\<close>

lemma Variable_iter_structure:
  assumes dt: "var_datatype self = Some d"
    and dims: "dt_array d = []"
    and it: "Variable_iter depth psz vardef self = ((ys, out), vardef')"
  shows "map fst ys = take (length ys) (map fst (dt_subItems d))
       \<and> (out = Returned \<longrightarrow> length ys = length (dt_subItems d))
       \<and> (\<forall>j<length ys. \<exists>t. map_of (dt_subItems d) (fst (ys ! j)) = Some t
              \<and> var_offset (snd (ys ! j)) = int (dt_offs t) + var_offset self)"
proof (cases "dt_subItems d = []")
  case True
  then show ?thesis using it dt dims by (simp add: Variable_iter_def)
next
  case False
  let ?names = "map fst (dt_subItems d)"
  have it': "iter_subItems depth psz vardef self ?names = ((ys, out), vardef')"
    using it dt dims False by (simp add: Variable_iter_def)
  from iter_subItems_yields [OF it'] have
    len: "length ys \<le> length ?names"
    and all: "out = Returned \<longrightarrow> length ys = length ?names"
    and each: "\<forall>j<length ys. fst (ys ! j) = ?names ! j
          \<and> (\<exists>vd vd'. Variable_getattr depth psz vd self (?names ! j) = (Inr (snd (ys ! j)), vd'))"
    by blast+
  have names: "map fst ys = take (length ys) ?names"
    using len each by (intro nth_equalityI) simp_all
  have offs: "\<forall>j<length ys. \<exists>t. map_of (dt_subItems d) (fst (ys ! j)) = Some t
              \<and> var_offset (snd (ys ! j)) = int (dt_offs t) + var_offset self"
  proof (intro allI impI)
    fix j assume j: "j < length ys"
    with each obtain vd vd' where
      "Variable_getattr depth psz vd self (?names ! j) = (Inr (snd (ys ! j)), vd')"
      by blast
    from Variable_getattr_returned [OF this] dt each j
    show "\<exists>t. map_of (dt_subItems d) (fst (ys ! j)) = Some t
              \<and> var_offset (snd (ys ! j)) = int (dt_offs t) + var_offset self"
      by auto
  qed
  show ?thesis using names all offs by simp
qed

text \<open>
  C10: iterating a Variable that is neither an array nor a structure fails with a
  not-iterable error, also when its datatype record has no dimensions and no sub-items.
  The generator raises \<^verbatim>\<open>TypeError\<close> only when the Variable has no datatype record;
  for a record with no dimensions and no sub-items, such as a pointer type, neither
  branch is taken and the generator ends normally without yielding anything. Here the
  variable that the constructor returns for the type \<open>POINTER TO INT\<close>.
\<close>

theorem Variable_iter_pointer_yields_nothing:
  "fst (Variable_init 5 4 (new_catalog [''POINTER TO INT'' \<mapsto> type_record ''POINTER TO INT'' ''INT'' 4 0 [] []])
          ''p'' (symbol_entry ''p'' ''POINTER TO INT'' 4) (ByName ''POINTER TO INT'') (Some 0))
     = Inr \<lparr> var_name = ''p'', var_symbol = symbol_entry ''p'' ''POINTER TO INT'' 4,
             var_datatype = Some (type_record ''POINTER TO INT'' ''INT'' 4 0 [] []),
             var_ctype = Some c_void_p, var_offset = 0 \<rparr>
   \<and> fst (Variable_iter 5 4
       (snd (Variable_init 5 4 (new_catalog [''POINTER TO INT'' \<mapsto> type_record ''POINTER TO INT'' ''INT'' 4 0 [] []])
          ''p'' (symbol_entry ''p'' ''POINTER TO INT'' 4) (ByName ''POINTER TO INT'') (Some 0)))
       \<lparr> var_name = ''p'', var_symbol = symbol_entry ''p'' ''POINTER TO INT'' 4,
         var_datatype = Some (type_record ''POINTER TO INT'' ''INT'' 4 0 [] []),
         var_ctype = Some c_void_p, var_offset = 0 \<rparr>)
     = ([], Returned)"
  by code_simp

end
